theory Spec2Isabelle
  imports
    Complex_Main
    "HOL-Library.List_Lexorder"
    "HOL-Library.Char_ord"
    "HOL-Library.Product_Lexorder"
    "HOL-Library.Log_Nat"
begin

section \<open>The incident table\<close>

text \<open>
  The script \<^verbatim>\<open>lfb_dashboard.py\<close> runs top to bottom over one pandas data frame. A row of
  that frame, after the feature-engineering block at the top of the script has added its
  columns, is the record below; the field names are the column names of the source.
  Columns the script adds from \<^verbatim>\<open>CallDate\<close> and \<^verbatim>\<open>TimeOfCall\<close> (\<^verbatim>\<open>Year\<close>, \<^verbatim>\<open>CallMonth\<close>,
  \<^verbatim>\<open>MonthName\<close>, \<^verbatim>\<open>HourOfCall\<close>, \<^verbatim>\<open>CallWeekday\<close>) are fields: nothing below depends on how
  pandas derives them. Numeric columns are exact rationals, and a missing value (NaN) is
  \<open>None\<close>; the rounding of float64 arithmetic is modelled in a section of its own, for the
  two medians of the attendance time. The text columns are taken to have pandas' plain
  object dtype.
\<close>

record incident =
  IncidentNumber :: string
  Year :: int
  CallMonth :: nat
  MonthName :: string
  HourOfCall :: nat
  CallWeekday :: string
  IncidentGroup :: string
  IncGeo_BoroughName :: string
  FirstPumpArriving_AttendanceTime :: "rat option"
  SecondPumpArriving_AttendanceTime :: "rat option"
  TurnoutTimeSeconds :: "rat option"
  TravelTimeSeconds :: "rat option"
  NumPumpsAttending :: "rat option"
  DelayCode_Description :: "string option"

type_synonym dataframe = "incident list"

text \<open>A numeric column (a pandas Series of floats) is a list of optional rationals.\<close>

type_synonym series = "rat option list"

section \<open>The pandas operations the script calls\<close>

text \<open>\<^verbatim>\<open>dropna\<close>: the values that are present, in order.\<close>

fun dropna :: "'a option list \<Rightarrow> 'a list" where
  "dropna [] = []"
| "dropna (None # xs) = dropna xs"
| "dropna (Some x # xs) = x # dropna xs"

text \<open>
  Comparisons of a series with a scalar: a comparison with NaN is false, so
  \<^verbatim>\<open>s <= c\<close> and \<^verbatim>\<open>s > c\<close> are both false on a missing value.
\<close>

fun le_scalar :: "rat option \<Rightarrow> rat \<Rightarrow> bool" where
  "le_scalar None c = False"
| "le_scalar (Some x) c = (x \<le> c)"

fun gt_scalar :: "rat option \<Rightarrow> rat \<Rightarrow> bool" where
  "gt_scalar None c = False"
| "gt_scalar (Some x) c = (x > c)"

text \<open>\<^verbatim>\<open>s / c\<close>, \<^verbatim>\<open>s.div(c)\<close> and \<^verbatim>\<open>s.mul(c)\<close>: elementwise, NaN stays NaN.\<close>

definition div_scalar :: "rat option \<Rightarrow> rat \<Rightarrow> rat option" where
  "div_scalar v c = map_option (\<lambda>x. x / c) v"

definition mul_scalar :: "rat option \<Rightarrow> rat \<Rightarrow> rat option" where
  "mul_scalar v c = map_option (\<lambda>x. x * c) v"

definition series_div :: "series \<Rightarrow> rat \<Rightarrow> series" where
  "series_div s c = map (\<lambda>v. div_scalar v c) s"

text \<open>
  \<^verbatim>\<open>Series.mean()\<close> skips missing values; over no values it is NaN.
  On a boolean series every entry counts, \<open>True\<close> as 1 and \<open>False\<close> as 0.
\<close>

definition pd_mean :: "series \<Rightarrow> rat option" where
  "pd_mean s =
     (let vs = dropna s in
      if vs = [] then None else Some (sum_list vs / of_nat (length vs)))"

definition pd_mean_bool :: "bool list \<Rightarrow> rat option" where
  "pd_mean_bool bs =
     (if bs = [] then None
      else Some (of_nat (length (filter (\<lambda>b. b) bs)) / of_nat (length bs)))"

text \<open>
  \<^verbatim>\<open>Series.median()\<close> skips missing values: the middle of the sorted values, or the mean
  of the two middle ones.
\<close>

definition pd_median :: "series \<Rightarrow> rat option" where
  "pd_median s =
     (let vs = sort (dropna s); n = length vs in
      if n = 0 then None
      else if odd n then Some (vs ! (n div 2))
      else Some ((vs ! (n div 2 - 1) + vs ! (n div 2)) / 2))"

text \<open>
  \<^verbatim>\<open>Series.quantile(q)\<close> with the default linear interpolation, for \<open>0 \<le> q \<le> 1\<close> (the
  script passes 0.90 only): the value at position \<open>(n - 1) * q\<close> of the sorted present
  values, interpolated between its two neighbours.
\<close>

definition pd_quantile :: "rat \<Rightarrow> series \<Rightarrow> rat option" where
  "pd_quantile q s =
     (let vs = sort (dropna s); n = length vs in
      if n = 0 then None
      else
        let pos = of_nat (n - 1) * q;
            lo = nat \<lfloor>pos\<rfloor>;
            hi = min (lo + 1) (n - 1);
            frac = pos - of_nat lo
        in Some (vs ! lo + (vs ! hi - vs ! lo) * frac))"

text \<open>\<^verbatim>\<open>nunique()\<close>: the number of distinct values.\<close>

definition nunique :: "'a list \<Rightarrow> nat" where
  "nunique xs = length (remdups xs)"

text \<open>
  The keys of a \<^verbatim>\<open>groupby\<close>: the distinct values of the key column in ascending order
  (\<^verbatim>\<open>sort=True\<close>); rows whose key is missing belong to no group (\<^verbatim>\<open>dropna=True\<close>).
\<close>

definition group_keys :: "'k::linorder list \<Rightarrow> 'k list" where
  "group_keys ks = sort (remdups ks)"

text \<open>
  \<^verbatim>\<open>sort_values(col, ascending=False)\<close>: pandas reverses the rows, sorts ascending and
  reverses the result. Ties are kept in their original order here; the sort that the
  script asks for (quicksort) promises no order among ties.
\<close>

definition sort_values_desc :: "('a \<Rightarrow> 'k::linorder) \<Rightarrow> 'a list \<Rightarrow> 'a list" where
  "sort_values_desc f xs = rev (sort_key f (rev xs))"

text \<open>\<^verbatim>\<open>cumsum()\<close>: the running sums.\<close>

fun cumsum_from :: "rat \<Rightarrow> rat list \<Rightarrow> rat list" where
  "cumsum_from acc [] = []"
| "cumsum_from acc (x # xs) = (acc + x) # cumsum_from (acc + x) xs"

definition cumsum :: "rat list \<Rightarrow> rat list" where
  "cumsum xs = cumsum_from 0 xs"

text \<open>
  \<^verbatim>\<open>pd.cut(x, bins, labels, right=True)\<close>. An edge of a bin is a number or
  \<^verbatim>\<open>float("inf")\<close>. pandas finds the position of \<open>x\<close> among the increasing edges with
  \<^verbatim>\<open>searchsorted(side="left")\<close>, which is the number of edges strictly below \<open>x\<close>; position 0
  (at or below the first edge), position \<open>len(bins)\<close> (above the last edge) and a missing
  \<open>x\<close> give NaN, every other position \<open>i\<close> gives \<open>labels[i - 1]\<close>.
\<close>

datatype edge = Edge rat | Inf

fun edge_below :: "edge \<Rightarrow> rat \<Rightarrow> bool" where
  "edge_below (Edge b) x = (b < x)"
| "edge_below Inf x = False"

definition searchsorted_left :: "edge list \<Rightarrow> rat \<Rightarrow> nat" where
  "searchsorted_left bins x = length (filter (\<lambda>b. edge_below b x) bins)"

definition pd_cut :: "edge list \<Rightarrow> 'l list \<Rightarrow> rat option \<Rightarrow> 'l option" where
  "pd_cut bins labels v =
     (case v of
        None \<Rightarrow> None
      | Some x \<Rightarrow>
          (let ids = searchsorted_left bins x in
           if ids = 0 \<or> ids = length bins then None
           else Some (labels ! (ids - 1))))"

section \<open>Sidebar filters\<close>

text \<open>
  The year selector offers the string \<^verbatim>\<open>"All"\<close> and the years of the table (integers); the
  month selector offers \<^verbatim>\<open>"All"\<close> and the twelve month names (strings).
\<close>

datatype year_option = All_Years | Selected_Year int

definition available_months :: "string list" where
  "available_months =
     [''All'', ''January'', ''February'', ''March'', ''April'', ''May'', ''June'',
      ''July'', ''August'', ''September'', ''October'', ''November'', ''December'']"

definition filtered_df :: "dataframe \<Rightarrow> year_option \<Rightarrow> string \<Rightarrow> dataframe" where
  "filtered_df df selected_year selected_month =
     (case selected_year of
        All_Years \<Rightarrow>
          (if selected_month = ''All'' then df
           else filter (\<lambda>r. MonthName r = selected_month) df)
      | Selected_Year y \<Rightarrow>
          (if selected_month = ''All'' then filter (\<lambda>r. Year r = y) df
           else filter (\<lambda>r. Year r = y \<and> MonthName r = selected_month) df))"

section \<open>KPI calculations\<close>

definition total_incidents :: "dataframe \<Rightarrow> nat" where
  "total_incidents df = length df"

definition median_response :: "dataframe \<Rightarrow> rat option" where
  "median_response df =
     div_scalar (pd_median (map FirstPumpArriving_AttendanceTime df)) 60"

definition response_within_6min :: "dataframe \<Rightarrow> rat option" where
  "response_within_6min df =
     mul_scalar
       (pd_mean_bool (map (\<lambda>r. le_scalar (FirstPumpArriving_AttendanceTime r) 360) df)) 100"

definition false_alarm_rate :: "dataframe \<Rightarrow> rat option" where
  "false_alarm_rate df =
     mul_scalar (pd_mean_bool (map (\<lambda>r. IncidentGroup r = ''False Alarm'') df)) 100"

definition fire_rate :: "dataframe \<Rightarrow> rat option" where
  "fire_rate df =
     mul_scalar (pd_mean_bool (map (\<lambda>r. IncidentGroup r = ''Fire'') df)) 100"

definition special_service_rate :: "dataframe \<Rightarrow> rat option" where
  "special_service_rate df =
     mul_scalar (pd_mean_bool (map (\<lambda>r. IncidentGroup r = ''Special Service'') df)) 100"

definition p90_response :: "dataframe \<Rightarrow> rat option" where
  "p90_response df =
     div_scalar (pd_quantile (9 / 10) (map FirstPumpArriving_AttendanceTime df)) 60"

definition avg_response :: "dataframe \<Rightarrow> rat option" where
  "avg_response df =
     div_scalar (pd_mean (map FirstPumpArriving_AttendanceTime df)) 60"

definition second_pump_rate :: "dataframe \<Rightarrow> rat option" where
  "second_pump_rate df =
     mul_scalar
       (pd_mean_bool (map (\<lambda>r. SecondPumpArriving_AttendanceTime r \<noteq> None) df)) 100"

definition avg_pumps :: "dataframe \<Rightarrow> rat option" where
  "avg_pumps df = pd_mean (map NumPumpsAttending df)"

record kpis =
  kpi_total_incidents :: nat
  kpi_median_response :: "rat option"
  kpi_response_within_6min :: "rat option"
  kpi_false_alarm_rate :: "rat option"
  kpi_fire_rate :: "rat option"
  kpi_special_service_rate :: "rat option"
  kpi_p90_response :: "rat option"
  kpi_avg_response :: "rat option"
  kpi_second_pump_rate :: "rat option"
  kpi_avg_pumps :: "rat option"

definition kpi_calculations :: "dataframe \<Rightarrow> kpis" where
  "kpi_calculations df =
     \<lparr> kpi_total_incidents = total_incidents df,
       kpi_median_response = median_response df,
       kpi_response_within_6min = response_within_6min df,
       kpi_false_alarm_rate = false_alarm_rate df,
       kpi_fire_rate = fire_rate df,
       kpi_special_service_rate = special_service_rate df,
       kpi_p90_response = p90_response df,
       kpi_avg_response = avg_response df,
       kpi_second_pump_rate = second_pump_rate df,
       kpi_avg_pumps = avg_pumps df \<rparr>"

section \<open>Monthly incident trends\<close>

text \<open>
  Unique incident numbers per (month, incident type), then per month, the latter labelled
  \<^verbatim>\<open>"All Incidents"\<close> and appended. A row of the long table is
  (\<^verbatim>\<open>CallMonth\<close>, \<^verbatim>\<open>IncidentGroup\<close>, \<^verbatim>\<open>IncidentCount\<close>).
\<close>

definition monthly_incidents_by_type :: "dataframe \<Rightarrow> (nat \<times> string \<times> nat) list" where
  "monthly_incidents_by_type df =
     map (\<lambda>(m, g).
            (m, g, nunique (map IncidentNumber
                     (filter (\<lambda>r. CallMonth r = m \<and> IncidentGroup r = g) df))))
         (group_keys (map (\<lambda>r. (CallMonth r, IncidentGroup r)) df))"

definition monthly_incidents_total :: "dataframe \<Rightarrow> (nat \<times> nat) list" where
  "monthly_incidents_total df =
     map (\<lambda>m. (m, nunique (map IncidentNumber (filter (\<lambda>r. CallMonth r = m) df))))
         (group_keys (map CallMonth df))"

definition monthly_incident_counts_long :: "dataframe \<Rightarrow> (nat \<times> string \<times> nat) list" where
  "monthly_incident_counts_long df =
     monthly_incidents_by_type df
     @ map (\<lambda>(m, c). (m, ''All Incidents'', c)) (monthly_incidents_total df)"

section \<open>Daily and hourly incident heatmap\<close>

text \<open>
  \<^verbatim>\<open>pivot_table(index="HourOfCall", columns="CallWeekday", values="IncidentNumber",
  aggfunc="nunique")\<close> has a value exactly for the (hour, weekday) pairs that occur in the
  table. The two \<^verbatim>\<open>reindex\<close> calls then lay the cells out by hour 0 to 23 and by
  \<^verbatim>\<open>weekday_order\<close>; neither is given a \<^verbatim>\<open>fill_value\<close>, so a cell the pivot table does not
  have is NaN.
\<close>

definition pivot_table_nunique :: "dataframe \<Rightarrow> nat \<Rightarrow> string \<Rightarrow> nat option" where
  "pivot_table_nunique df h d =
     (let ids = map IncidentNumber (filter (\<lambda>r. HourOfCall r = h \<and> CallWeekday r = d) df)
      in if ids = [] then None else Some (nunique ids))"

definition weekday_order :: "string list" where
  "weekday_order =
     [''Monday'', ''Tuesday'', ''Wednesday'', ''Thursday'', ''Friday'', ''Saturday'', ''Sunday'']"

definition daily_hourly_incidents :: "dataframe \<Rightarrow> nat option list list" where
  "daily_hourly_incidents df =
     map (\<lambda>h. map (\<lambda>d. pivot_table_nunique df h d) weekday_order) [0..<24]"

section \<open>Response time bands by incident type\<close>

definition ResponseMinutes :: "incident \<Rightarrow> rat option" where
  "ResponseMinutes r = div_scalar (FirstPumpArriving_AttendanceTime r) 60"

definition extreme_delay_rate :: "dataframe \<Rightarrow> rat option" where
  "extreme_delay_rate df =
     mul_scalar (pd_mean_bool (map (\<lambda>r. gt_scalar (ResponseMinutes r) 10) df)) 100"

text \<open>
  The labels of the source are written in ASCII here: its first label starts with the sign
  U+2264 (less than or equal) and its ranges are joined by the dash U+2013.
\<close>

definition bins :: "edge list" where
  "bins = [Edge 0, Edge 6, Edge 8, Edge 10, Inf]"

definition labels :: "string list" where
  "labels = [''<= 6 min'', ''6-8 min'', ''8-10 min'', ''> 10 min'']"

definition ResponseBand :: "incident \<Rightarrow> string option" where
  "ResponseBand r = pd_cut bins labels (ResponseMinutes r)"

text \<open>
  \<^verbatim>\<open>groupby(["IncidentGroup", "ResponseBand"]).size()\<close>: \<^verbatim>\<open>ResponseBand\<close> is a categorical
  column, and with the default \<^verbatim>\<open>observed=False\<close> (pandas before 3.0) every incident type of
  the table gets a row for each of the four bands, with count 0 where no record has the
  pair. A record without a band is in no group.
\<close>

definition band_count :: "dataframe \<Rightarrow> string \<Rightarrow> string \<Rightarrow> nat" where
  "band_count df g b =
     length (filter (\<lambda>r. IncidentGroup r = g \<and> ResponseBand r = Some b) df)"

definition band_counts :: "dataframe \<Rightarrow> (string \<times> string \<times> nat) list" where
  "band_counts df =
     concat (map (\<lambda>g. map (\<lambda>b. (g, b, band_count df g b)) labels)
       (group_keys (map IncidentGroup df)))"

text \<open>
  Division of one float by another: NaN when either is missing. Division by zero gives NaN
  (for 0/0) or an infinity; both are outside the rationals and are \<open>None\<close> here.
\<close>

fun pd_div :: "rat option \<Rightarrow> rat option \<Rightarrow> rat option" where
  "pd_div (Some x) (Some y) = (if y = 0 then None else Some (x / y))"
| "pd_div _ _ = None"

fun pd_add :: "rat option \<Rightarrow> rat option \<Rightarrow> rat option" where
  "pd_add (Some x) (Some y) = Some (x + y)"
| "pd_add _ _ = None"

text \<open>
  \<^verbatim>\<open>transform(lambda x: 100 * x / x.sum())\<close> within each incident type: the count as a
  percentage of the counts of its incident type.
\<close>

definition group_count_sum :: "(string \<times> string \<times> nat) list \<Rightarrow> string \<Rightarrow> nat" where
  "group_count_sum counts g =
     sum_list (map (\<lambda>row. snd (snd row)) (filter (\<lambda>row. fst row = g) counts))"

definition band_percent :: "(string \<times> string \<times> nat) list \<Rightarrow> (string \<times> string \<times> rat option) list" where
  "band_percent counts =
     map (\<lambda>(g, b, c).
            (g, b, pd_div (Some (100 * of_nat c)) (Some (of_nat (group_count_sum counts g)))))
         counts"

text \<open>
  \<^verbatim>\<open>pivot(index="IncidentGroup", columns="ResponseBand", values="Percent").fillna(0)\<close>,
  with the columns then put in the order of \<^verbatim>\<open>labels\<close>: one row per incident type, holding
  its four percentages.
\<close>

definition fillna0 :: "rat option \<Rightarrow> rat" where
  "fillna0 v = (case v of None \<Rightarrow> 0 | Some x \<Rightarrow> x)"

definition pivot_cell :: "(string \<times> string \<times> rat option) list \<Rightarrow> string \<Rightarrow> string \<Rightarrow> rat option" where
  "pivot_cell rows g b =
     (case map_of (map (\<lambda>(g', b', p). ((g', b'), p)) rows) (g, b) of
        None \<Rightarrow> None
      | Some p \<Rightarrow> p)"

definition band_pivot :: "dataframe \<Rightarrow> (string \<times> rat list) list" where
  "band_pivot df =
     (let rows = band_percent (band_counts df) in
      map (\<lambda>g. (g, map (\<lambda>b. fillna0 (pivot_cell rows g b)) labels))
          (group_keys (map fst rows)))"

section \<open>Distribution of first pump attendance time\<close>

definition response_minutes :: "dataframe \<Rightarrow> series" where
  "response_minutes df = series_div (map FirstPumpArriving_AttendanceTime df) 60"

definition median :: "dataframe \<Rightarrow> rat option" where
  "median df = pd_median (response_minutes df)"

definition mean :: "dataframe \<Rightarrow> rat option" where
  "mean df = pd_mean (response_minutes df)"

definition p90 :: "dataframe \<Rightarrow> rat option" where
  "p90 df = pd_quantile (9 / 10) (response_minutes df)"

text \<open>
  The second banding, of the whole distribution. \<^verbatim>\<open>pd.cut\<close> is called without
  \<^verbatim>\<open>right\<close>, whose default is \<open>True\<close>. The last edge is 20, not infinity.
\<close>

definition bins_distribution :: "edge list" where
  "bins_distribution = [Edge 0, Edge 4, Edge 6, Edge 8, Edge 20]"

definition labels_distribution :: "string list" where
  "labels_distribution = [''<4 min'', ''4-6 min'', ''6-8 min'', ''>8 min'']"

definition distribution_band :: "rat option \<Rightarrow> string option" where
  "distribution_band v = pd_cut bins_distribution labels_distribution v"

text \<open>
  \<^verbatim>\<open>round(1)\<close> and the format \<^verbatim>\<open>.1f\<close>: one decimal, a tie going to the even digit.
\<close>

definition round_half_even :: "rat \<Rightarrow> int" where
  "round_half_even y =
     (let f = \<lfloor>y\<rfloor>; d = y - of_int f in
      if d < 1 / 2 then f else if d > 1 / 2 then f + 1 else if even f then f else f + 1)"

definition round1 :: "rat \<Rightarrow> rat" where
  "round1 x = of_int (round_half_even (x * 10)) / 10"

text \<open>
  \<^verbatim>\<open>value_counts(normalize=True).sort_index().mul(100).round(1)\<close>: the share of each band
  among the values that have a band, in the order of the bands.
\<close>

definition band_distribution :: "dataframe \<Rightarrow> (string \<times> rat option) list" where
  "band_distribution df =
     (let banded = dropna (map distribution_band (response_minutes df)) in
      map (\<lambda>b. (b, map_option round1
                   (mul_scalar
                      (pd_div (Some (of_nat (length (filter (\<lambda>x. x = b) banded))))
                              (Some (of_nat (length banded))))
                      100)))
          labels_distribution)"

definition extreme_delay_share :: "dataframe \<Rightarrow> rat option" where
  "extreme_delay_share df =
     mul_scalar (pd_mean_bool (map (\<lambda>v. gt_scalar v 10) (response_minutes df))) 100"

section \<open>Response time decomposition: turnout and travel\<close>

text \<open>
  Mean turnout and mean travel time per incident type, in minutes, their sum, and each as a
  percentage of the sum.
\<close>

record decomposition_row =
  dec_IncidentGroup :: string
  dec_TurnoutTimeSeconds :: "rat option"
  dec_TravelTimeSeconds :: "rat option"
  TotalMinutes :: "rat option"
  TurnoutPercent :: "rat option"
  TravelPercent :: "rat option"

definition decomposition_group :: "dataframe \<Rightarrow> string \<Rightarrow> decomposition_row" where
  "decomposition_group df g =
     (let rows = filter (\<lambda>r. IncidentGroup r = g) df;
          turnout = div_scalar (pd_mean (map TurnoutTimeSeconds rows)) 60;
          travel = div_scalar (pd_mean (map TravelTimeSeconds rows)) 60;
          total = pd_add turnout travel
      in \<lparr> dec_IncidentGroup = g,
           dec_TurnoutTimeSeconds = turnout,
           dec_TravelTimeSeconds = travel,
           TotalMinutes = total,
           TurnoutPercent = mul_scalar (pd_div turnout total) 100,
           TravelPercent = mul_scalar (pd_div travel total) 100 \<rparr>)"

definition decomposition :: "dataframe \<Rightarrow> decomposition_row list" where
  "decomposition df = map (decomposition_group df) (group_keys (map IncidentGroup df))"

text \<open>
  \<^verbatim>\<open>decomposition.set_index("IncidentGroup").loc[order]\<close> raises \<^verbatim>\<open>KeyError\<close> when a label
  of \<^verbatim>\<open>order\<close> is not in the index, that is when the table has no record of one of the
  three incident types.
\<close>

datatype py_error = KeyError

definition order :: "string list" where
  "order = [''Fire'', ''Special Service'', ''False Alarm'']"

fun loc :: "decomposition_row list \<Rightarrow> string list \<Rightarrow> py_error + decomposition_row list" where
  "loc rows [] = Inr []"
| "loc rows (k # ks) =
     (case find (\<lambda>row. dec_IncidentGroup row = k) rows of
        None \<Rightarrow> Inl KeyError
      | Some row \<Rightarrow> (case loc rows ks of Inl e \<Rightarrow> Inl e | Inr rest \<Rightarrow> Inr (row # rest)))"

definition decomposition_ordered :: "dataframe \<Rightarrow> py_error + decomposition_row list" where
  "decomposition_ordered df = loc (decomposition df) order"

section \<open>Extreme delays: Pareto analysis\<close>

definition extreme_df :: "dataframe \<Rightarrow> dataframe" where
  "extreme_df df = filter (\<lambda>r. gt_scalar (ResponseMinutes r) 10) df"

text \<open>
  \<^verbatim>\<open>groupby("DelayCode_Description").size()\<close>, sorted by count, largest first. A record
  without a delay description is in no group.
\<close>

definition delay_counts_extreme :: "dataframe \<Rightarrow> (string \<times> nat) list" where
  "delay_counts_extreme df =
     sort_values_desc snd
       (map (\<lambda>k. (k, length (filter (\<lambda>r. DelayCode_Description r = Some k) (extreme_df df))))
            (group_keys (dropna (map DelayCode_Description (extreme_df df)))))"

text \<open>
  The columns \<^verbatim>\<open>Percent\<close> and \<^verbatim>\<open>CumulativePercent\<close>. The script computes them only after
  it has found the table non-empty; every count of the table is at least one, so the
  total it divides by is positive.
\<close>

record pareto_row =
  par_DelayCode_Description :: string
  IncidentCount :: nat
  Percent :: rat
  CumulativePercent :: rat

definition total_extreme :: "(string \<times> nat) list \<Rightarrow> nat" where
  "total_extreme counts = sum_list (map snd counts)"

definition percent_column :: "(string \<times> nat) list \<Rightarrow> rat list" where
  "percent_column counts =
     map (\<lambda>(k, c). of_nat c / of_nat (total_extreme counts) * 100) counts"

definition with_percent :: "(string \<times> nat) list \<Rightarrow> pareto_row list" where
  "with_percent counts =
     map (\<lambda>((k, c), p, cp).
            \<lparr> par_DelayCode_Description = k, IncidentCount = c,
              Percent = p, CumulativePercent = cp \<rparr>)
         (zip counts (zip (percent_column counts) (cumsum (percent_column counts))))"

definition pareto_df :: "pareto_row list \<Rightarrow> pareto_row list" where
  "pareto_df rows = take 10 rows"

definition top3_share :: "pareto_row list \<Rightarrow> rat" where
  "top3_share rows = sum_list (map Percent (take 3 rows))"

section \<open>The script, top to bottom\<close>

text \<open>
  What a run of the script puts on the page, section by section, and how it ends:
  it reaches its last line, it halts at a \<^verbatim>\<open>st.stop()\<close>, or an exception ends it.
  A section carries the tables and figures modelled above; the sections whose charts no
  statement below is about carry none. Drawing a chart is taken to succeed.
\<close>

datatype page_section =
    Key_Performance_Indicators kpis
  | Monthly_Incident_Trends "(nat \<times> string \<times> nat) list"
  | Incident_Heatmap "nat option list list"
  | Monthly_Response_Performance
  | Response_By_Borough
  | Six_Minute_Target_By_Borough
  | Response_Time_Bands "(string \<times> rat list) list" "rat option"
  | Attendance_Time_Distribution "rat option" "rat option" "rat option"
  | Distribution_Bands "(string \<times> rat option) list" "rat option"
  | Distribution_By_Incident_Type
  | Turnout_Travel_Decomposition "decomposition_row list"
  | Pareto_Analysis "pareto_row list" rat
  | Tabs kpis

datatype rendered = Warning string | Rendered page_section

datatype ending = Completed | Stopped | Raised py_error

definition sections_before_decomposition :: "dataframe \<Rightarrow> rendered list" where
  "sections_before_decomposition df =
     [Rendered (Key_Performance_Indicators (kpi_calculations df)),
      Rendered (Monthly_Incident_Trends (monthly_incident_counts_long df)),
      Rendered (Incident_Heatmap (daily_hourly_incidents df)),
      Rendered Monthly_Response_Performance,
      Rendered Response_By_Borough,
      Rendered Six_Minute_Target_By_Borough,
      Rendered (Response_Time_Bands (band_pivot df) (extreme_delay_rate df)),
      Rendered (Attendance_Time_Distribution (median df) (mean df) (p90 df)),
      Rendered (Distribution_Bands (band_distribution df) (extreme_delay_share df)),
      Rendered Distribution_By_Incident_Type]"

definition no_data_warning :: string where
  "no_data_warning = ''No data available for selected filters.''"

definition no_extreme_delays_warning :: string where
  "no_extreme_delays_warning = ''No extreme delays found for selected filters.''"

definition run_dashboard :: "dataframe \<Rightarrow> year_option \<Rightarrow> string \<Rightarrow> rendered list \<times> ending" where
  "run_dashboard df selected_year selected_month =
     (let fdf = filtered_df df selected_year selected_month in
      if fdf = [] then ([Warning no_data_warning], Stopped)
      else
        (case decomposition_ordered fdf of
           Inl e \<Rightarrow> (sections_before_decomposition fdf, Raised e)
         | Inr dec \<Rightarrow>
             (let shown = sections_before_decomposition fdf
                          @ [Rendered (Turnout_Travel_Decomposition dec)];
                  counts = delay_counts_extreme fdf
              in if counts = [] then (shown @ [Warning no_extreme_delays_warning], Stopped)
                 else
                   (let rows = with_percent counts in
                    (shown @ [Rendered (Pareto_Analysis (pareto_df rows) (top3_share rows)),
                              Rendered (Tabs (kpi_calculations fdf))],
                     Completed)))))"

section \<open>The median of the attendance time in float64 arithmetic\<close>

text \<open>
  The tables above hold exact numbers. pandas computes in IEEE 754 double precision, where
  every division and addition rounds its exact result to the nearest number with a
  significand of 53 bits, a tie going to the even significand. The script takes the
  median of the first pump's attendance time in two ways: \<^verbatim>\<open>median_response\<close> is the median
  of the seconds divided by 60, and \<^verbatim>\<open>median\<close> of the distribution chart is the median of
  \<^verbatim>\<open>response_minutes\<close>, the seconds each divided by 60. This section models the rounding of
  the two. Overflow and subnormal numbers are not modelled: attendance times are far from
  both. The only divisors are 60 and 2.

  \<open>binade x\<close> is the exponent \<open>e\<close> with \<open>2^e \<le> x < 2^(e + 1)\<close>, for positive \<open>x\<close>.
\<close>

definition binade :: "rat \<Rightarrow> int" where
  "binade x =
     (let s = (if 1 \<le> x then 0 else bitlen \<lfloor>1 / x\<rfloor>)
      in bitlen \<lfloor>x * 2 ^ nat s\<rfloor> - 1 - s)"

definition round_float64 :: "rat \<Rightarrow> rat" where
  "round_float64 x =
     (if x = 0 then 0
      else
        let ulp = power_int 2 (binade \<bar>x\<bar> - 52)
        in sgn x * of_int (round_half_even (\<bar>x\<bar> / ulp)) * ulp)"

definition float_div :: "rat \<Rightarrow> rat \<Rightarrow> rat" where
  "float_div a b = round_float64 (a / b)"

definition float_add :: "rat \<Rightarrow> rat \<Rightarrow> rat" where
  "float_add a b = round_float64 (a + b)"

definition float_series_div :: "series \<Rightarrow> rat \<Rightarrow> series" where
  "float_series_div s c = map (map_option (\<lambda>x. float_div x c)) s"

text \<open>
  \<^verbatim>\<open>Series.median()\<close> in doubles: the middle value of an odd number of present values is
  taken as it is; the two middle values of an even number are added and the sum is
  divided by 2.
\<close>

definition float_median :: "series \<Rightarrow> rat option" where
  "float_median s =
     (let vs = sort (dropna s); n = length vs in
      if n = 0 then None
      else if odd n then Some (vs ! (n div 2))
      else Some (float_div (float_add (vs ! (n div 2 - 1)) (vs ! (n div 2))) 2))"

definition float_median_response :: "dataframe \<Rightarrow> rat option" where
  "float_median_response df =
     map_option (\<lambda>v. float_div v 60) (float_median (map FirstPumpArriving_AttendanceTime df))"

definition float_response_minutes :: "dataframe \<Rightarrow> series" where
  "float_response_minutes df = float_series_div (map FirstPumpArriving_AttendanceTime df) 60"

definition float_median_minutes :: "dataframe \<Rightarrow> rat option" where
  "float_median_minutes df = float_median (float_response_minutes df)"

text \<open>The format \<^verbatim>\<open>.2f\<close>, with which the script prints both medians.\<close>

definition round2 :: "rat \<Rightarrow> rat" where
  "round2 x = of_int (round_half_even (x * 100)) / 100"

section \<open>Example tables\<close>

text \<open>
  A record of Monday 2 January 2023, 9 o'clock, with the incident number, the incident
  type, the first pump's attendance time and the delay description given.
\<close>

definition example_incident :: "string \<Rightarrow> string \<Rightarrow> rat option \<Rightarrow> string option \<Rightarrow> incident" where
  "example_incident num grp att delay =
     \<lparr> IncidentNumber = num, Year = 2023, CallMonth = 1, MonthName = ''January'',
       HourOfCall = 9, CallWeekday = ''Monday'', IncidentGroup = grp,
       IncGeo_BoroughName = ''Camden'',
       FirstPumpArriving_AttendanceTime = att,
       SecondPumpArriving_AttendanceTime = None,
       TurnoutTimeSeconds = Some 60, TravelTimeSeconds = Some 240,
       NumPumpsAttending = Some 1, DelayCode_Description = delay \<rparr>"

text \<open>
  Two rows of incident A (a fire, 200 seconds) and one row of incident B (a false alarm,
  400 seconds), all in month 1.
\<close>

definition shared_incident_example :: dataframe where
  "shared_incident_example =
     [example_incident ''A'' ''Fire'' (Some 200) None,
      example_incident ''A'' ''Fire'' (Some 200) None,
      example_incident ''B'' ''False Alarm'' (Some 400) None]"


text \<open>One record of each incident type, none of them over ten minutes.\<close>

definition no_extreme_example :: dataframe where
  "no_extreme_example =
     [example_incident ''A'' ''Fire'' (Some 300) None,
      example_incident ''B'' ''Special Service'' (Some 420) None,
      example_incident ''C'' ''False Alarm'' (Some 540) (Some ''Traffic'')]"

text \<open>Attendance times of 200 and 223 seconds, and the same with a third of 300 seconds.\<close>

definition two_times_example :: dataframe where
  "two_times_example =
     [example_incident ''A'' ''Fire'' (Some 200) None,
      example_incident ''B'' ''Fire'' (Some 223) None]"

definition three_times_example :: dataframe where
  "three_times_example =
     [example_incident ''A'' ''Fire'' (Some 200) None,
      example_incident ''B'' ''Fire'' (Some 223) None,
      example_incident ''C'' ''Fire'' (Some 300) None]"

section \<open>Facts about the pandas operations\<close>

lemma set_group_keys: "set (group_keys ks) = set ks"
  by (simp add: group_keys_def)

lemma distinct_group_keys: "distinct (group_keys ks)"
  by (simp add: group_keys_def)

lemma nunique_card: "nunique (map f xs) = card (f ` set xs)"
  by (simp add: nunique_def length_remdups_card_conv)

lemma nunique_le_length: "nunique (map f xs) \<le> length xs"
  unfolding nunique_def by (metis length_map length_remdups_leq)

lemma nunique_filter_card:
  "nunique (map f (filter P xs)) = card (f ` {x \<in> set xs. P x})"
  by (simp add: nunique_card)

lemma card_image_filter_le:
  "card (f ` {x \<in> set xs. P x}) \<le> length (filter P xs)"
  using nunique_le_length [of f "filter P xs"] by (simp add: nunique_card)

lemma dropna_append: "dropna (xs @ ys) = dropna xs @ dropna ys"
  by (induction xs rule: dropna.induct) simp_all


lemma dropna_series_div: "dropna (series_div s c) = map (\<lambda>x. x / c) (dropna s)"
  by (induction s rule: dropna.induct) (simp_all add: series_div_def div_scalar_def)

lemma insort_map_divide:
  fixes xs :: "rat list"
  assumes "0 < c"
  shows "insort (x / c) (map (\<lambda>x. x / c) xs) = map (\<lambda>x. x / c) (insort x xs)"
  using assms by (induction xs) (simp_all add: divide_le_cancel)

lemma sort_map_divide:
  fixes xs :: "rat list"
  assumes "0 < c"
  shows "sort (map (\<lambda>x. x / c) xs) = map (\<lambda>x. x / c) (sort xs)"
  by (induction xs) (simp_all add: sort_key_simps insort_map_divide [OF assms])

lemma sort_eq_Nil_iff: "sort xs = [] \<longleftrightarrow> xs = []"
  by (metis length_0_conv length_sort)

lemma pd_median_series_div:
  assumes "0 < c"
  shows "pd_median (series_div s c) = div_scalar (pd_median s) c"
proof (cases "dropna s = []")
  case True
  then show ?thesis
    by (simp add: pd_median_def dropna_series_div div_scalar_def)
next
  case False
  define vs where "vs = sort (dropna s)"
  have n: "0 < length vs" using False by (simp add: vs_def)
  have i: "length vs div 2 < length vs" using n by arith
  have j: "length vs div 2 - 1 < length vs" using n by arith
  have "pd_median (series_div s c) =
      (if odd (length vs) then Some (map (\<lambda>x. x / c) vs ! (length vs div 2))
       else Some ((map (\<lambda>x. x / c) vs ! (length vs div 2 - 1)
                   + map (\<lambda>x. x / c) vs ! (length vs div 2)) / 2))"
    using False
    by (simp add: pd_median_def dropna_series_div sort_map_divide [OF assms] Let_def vs_def sort_eq_Nil_iff)
  also have "\<dots> = div_scalar (if odd (length vs) then Some (vs ! (length vs div 2))
       else Some ((vs ! (length vs div 2 - 1) + vs ! (length vs div 2)) / 2)) c"
    unfolding nth_map [OF i] nth_map [OF j]
    by (simp add: div_scalar_def add_divide_distrib)
  also have "\<dots> = div_scalar (pd_median s) c"
    using False by (simp add: pd_median_def Let_def vs_def sort_eq_Nil_iff)
  finally show ?thesis .
qed

lemma pd_mean_series_div:
  "pd_mean (series_div s c) = div_scalar (pd_mean s) c"
proof -
  have "sum_list (map (\<lambda>x. x / c) vs) = sum_list vs / c" for vs :: "rat list"
    by (induction vs) (simp_all add: add_divide_distrib)
  then show ?thesis
    by (simp add: pd_mean_def dropna_series_div Let_def div_scalar_def)
qed

lemma pd_quantile_series_div:
  assumes "0 < c" and "0 \<le> q" and "q \<le> 1"
  shows "pd_quantile q (series_div s c) = div_scalar (pd_quantile q s) c"
proof (cases "dropna s = []")
  case True
  then show ?thesis
    by (simp add: pd_quantile_def dropna_series_div div_scalar_def)
next
  case False
  define vs where "vs = sort (dropna s)"
  define n where "n = length vs"
  define lo where "lo = nat \<lfloor>of_nat (n - 1) * q\<rfloor>"
  define hi where "hi = min (lo + 1) (n - 1)"
  define frac where "frac = of_nat (n - 1) * q - of_nat lo"
  have n: "0 < n" using False by (simp add: vs_def n_def)
  have "of_nat (n - 1) * q \<le> (of_nat (n - 1) :: rat)"
    using assms(3) by (simp add: mult_left_le)
  then have "\<lfloor>of_nat (n - 1) * q\<rfloor> \<le> int (n - 1)"
    by (simp add: floor_le_iff)
  then have lo: "lo < length vs" using n unfolding lo_def n_def by arith
  have hi: "hi < length vs" using n unfolding hi_def n_def by arith
  have "pd_quantile q (series_div s c) =
      Some (map (\<lambda>x. x / c) vs ! lo
            + (map (\<lambda>x. x / c) vs ! hi - map (\<lambda>x. x / c) vs ! lo) * frac)"
    using False
    by (simp add: pd_quantile_def dropna_series_div sort_map_divide [OF assms(1)]
          Let_def vs_def n_def lo_def hi_def frac_def sort_eq_Nil_iff)
  also have "\<dots> = div_scalar (Some (vs ! lo + (vs ! hi - vs ! lo) * frac)) c"
    unfolding nth_map [OF lo] nth_map [OF hi]
    by (simp add: div_scalar_def add_divide_distrib diff_divide_distrib left_diff_distrib)
  also have "\<dots> = div_scalar (pd_quantile q s) c"
    using False by (simp add: pd_quantile_def Let_def vs_def n_def lo_def hi_def frac_def sort_eq_Nil_iff)
  finally show ?thesis .
qed


lemma floor_rat_numeral_div:
  "\<lfloor>numeral a / numeral b :: rat\<rfloor> = numeral a div numeral b"
  using floor_divide_of_int_eq [of "numeral a" "numeral b", where ?'a = rat] by simp


lemma pd_div_mul_sum:
  assumes "pd_add a b = Some t" and "t \<noteq> 0"
  shows "\<exists>x y. mul_scalar (pd_div a (Some t)) 100 = Some x
            \<and> mul_scalar (pd_div b (Some t)) 100 = Some y \<and> x + y = 100"
proof -
  from assms(1) obtain u v where a: "a = Some u" and b: "b = Some v" and t: "t = u + v"
    by (cases a; cases b) auto
  have "u / t * 100 + v / t * 100 = (u + v) / t * 100"
    by (simp add: add_divide_distrib distrib_right)
  then have "u / t * 100 + v / t * 100 = 100"
    using assms(2) by (simp add: t)
  then show ?thesis using assms(2) by (simp add: a b mul_scalar_def)
qed


section \<open>The filter\<close>

text \<open>
  C1. For every table and every selection of year and month, \<open>filtered_df\<close> keeps exactly
  the records that satisfy the equality of each component that is not "All", in their
  order, and all records when both are "All". When no record matches, the result is the
  empty table, and the script then shows its no-data warning and stops: a run on an empty
  selection renders no KPI and no chart.
\<close>

theorem filtered_df_conjunction:
  "filtered_df df y m =
     filter (\<lambda>r. (case y of All_Years \<Rightarrow> True | Selected_Year v \<Rightarrow> Year r = v)
                 \<and> (m = ''All'' \<or> MonthName r = m)) df
   \<and> filtered_df df All_Years ''All'' = df
   \<and> ((\<forall>r \<in> set df.
          \<not> ((case y of All_Years \<Rightarrow> True | Selected_Year v \<Rightarrow> Year r = v)
             \<and> (m = ''All'' \<or> MonthName r = m))) \<longrightarrow>
        filtered_df df y m = []
        \<and> run_dashboard df y m = ([Warning no_data_warning], Stopped))"
proof -
  have eq: "filtered_df df y m =
     filter (\<lambda>r. (case y of All_Years \<Rightarrow> True | Selected_Year v \<Rightarrow> Year r = v)
                 \<and> (m = ''All'' \<or> MonthName r = m)) df"
    by (cases y) (simp_all add: filtered_df_def)
  have all: "filtered_df df All_Years ''All'' = df"
    by (simp add: filtered_df_def)
  have stop: "filtered_df df y m = [] \<Longrightarrow>
      run_dashboard df y m = ([Warning no_data_warning], Stopped)"
    by (simp add: run_dashboard_def)
  from eq all stop show ?thesis
    by (simp add: filter_empty_conv)
qed

theorem filtered_df_conjunction_witness:
  "filtered_df [example_incident ''A'' ''Fire'' (Some 200) None]
       (Selected_Year 2024) ''January'' = []
   \<and> run_dashboard [example_incident ''A'' ''Fire'' (Some 200) None]
       (Selected_Year 2024) ''January'' = ([Warning no_data_warning], Stopped)
   \<and> filtered_df [example_incident ''A'' ''Fire'' (Some 200) None]
       (Selected_Year 2023) ''January'' = [example_incident ''A'' ''Fire'' (Some 200) None]"
proof -
  let ?df = "[example_incident ''A'' ''Fire'' (Some 200) None]"
  have none: "\<forall>r \<in> set ?df.
      \<not> ((case Selected_Year 2024 of All_Years \<Rightarrow> True | Selected_Year v \<Rightarrow> Year r = v)
         \<and> (''January'' = ''All'' \<or> MonthName r = ''January''))"
    by (simp add: example_incident_def)
  from none filtered_df_conjunction [of ?df "Selected_Year 2024" "''January''"]
  have "filtered_df ?df (Selected_Year 2024) ''January'' = []
      \<and> run_dashboard ?df (Selected_Year 2024) ''January''
          = ([Warning no_data_warning], Stopped)"
    by blast
  moreover have "filtered_df ?df (Selected_Year 2023) ''January'' = ?df"
    using filtered_df_conjunction [of ?df "Selected_Year 2023" "''January''"]
    by (simp add: example_incident_def)
  ultimately show ?thesis by simp
qed

section \<open>Monthly incident trends count incidents, not rows\<close>

lemma monthly_incident_counts_long_example:
  "monthly_incident_counts_long shared_incident_example =
     [(1, ''False Alarm'', 1), (1, ''Fire'', 1), (1, ''All Incidents'', 2)]"
  by (simp add: monthly_incident_counts_long_def monthly_incidents_by_type_def
        monthly_incidents_total_def group_keys_def nunique_def
        shared_incident_example_def example_incident_def)

text \<open>
  C7. Every row of the monthly table by incident type holds the number of distinct
  incident numbers among the records of its month and incident type, which is at most the
  number of those records; every row of the monthly totals, labelled "All Incidents" in
  the long table, holds the number of distinct incident numbers among the records of its
  month, over all incident types. Every month and incident type of the table has its row.
  For two rows of incident A (Fire, month 1) and one row of incident B (False Alarm,
  month 1) the long table reads Fire 1, False Alarm 1, All Incidents 2.
\<close>

theorem monthly_unique_incident_counts:
  "(\<forall>row \<in> set (monthly_incidents_by_type df).
      (case row of (m, g, c) \<Rightarrow>
         c = card (IncidentNumber ` {r \<in> set df. CallMonth r = m \<and> IncidentGroup r = g})
         \<and> c \<le> length (filter (\<lambda>r. CallMonth r = m \<and> IncidentGroup r = g) df)))
   \<and> (\<forall>row \<in> set (monthly_incidents_total df).
      (case row of (m, c) \<Rightarrow>
         c = card (IncidentNumber ` {r \<in> set df. CallMonth r = m})
         \<and> c \<le> length (filter (\<lambda>r. CallMonth r = m) df)))
   \<and> (\<forall>r \<in> set df.
         (\<exists>c. (CallMonth r, IncidentGroup r, c) \<in> set (monthly_incidents_by_type df))
         \<and> (\<exists>c. (CallMonth r, c) \<in> set (monthly_incidents_total df)))
   \<and> monthly_incident_counts_long df =
        monthly_incidents_by_type df
        @ map (\<lambda>(m, c). (m, ''All Incidents'', c)) (monthly_incidents_total df)
   \<and> monthly_incident_counts_long shared_incident_example =
       [(1, ''False Alarm'', 1), (1, ''Fire'', 1), (1, ''All Incidents'', 2)]"
proof (intro conjI ballI)
  fix row assume "row \<in> set (monthly_incidents_by_type df)"
  then show "case row of (m, g, c) \<Rightarrow>
         c = card (IncidentNumber ` {r \<in> set df. CallMonth r = m \<and> IncidentGroup r = g})
         \<and> c \<le> length (filter (\<lambda>r. CallMonth r = m \<and> IncidentGroup r = g) df)"
    by (auto simp: monthly_incidents_by_type_def nunique_filter_card card_image_filter_le)
next
  fix row assume "row \<in> set (monthly_incidents_total df)"
  then show "case row of (m, c) \<Rightarrow>
         c = card (IncidentNumber ` {r \<in> set df. CallMonth r = m})
         \<and> c \<le> length (filter (\<lambda>r. CallMonth r = m) df)"
    by (auto simp: monthly_incidents_total_def nunique_filter_card card_image_filter_le)
next
  fix r assume r: "r \<in> set df"
  then have "(CallMonth r, IncidentGroup r)
      \<in> set (group_keys (map (\<lambda>r. (CallMonth r, IncidentGroup r)) df))"
    by (simp add: set_group_keys)
  then show "\<exists>c. (CallMonth r, IncidentGroup r, c) \<in> set (monthly_incidents_by_type df)"
    unfolding monthly_incidents_by_type_def by force
next
  fix r assume r: "r \<in> set df"
  then have "CallMonth r \<in> set (group_keys (map CallMonth df))"
    by (simp add: set_group_keys)
  then show "\<exists>c. (CallMonth r, c) \<in> set (monthly_incidents_total df)"
    unfolding monthly_incidents_total_def by force
next
  show "monthly_incident_counts_long df =
        monthly_incidents_by_type df
        @ map (\<lambda>(m, c). (m, ''All Incidents'', c)) (monthly_incidents_total df)"
    by (simp add: monthly_incident_counts_long_def)
next
  show "monthly_incident_counts_long shared_incident_example =
       [(1, ''False Alarm'', 1), (1, ''Fire'', 1), (1, ''All Incidents'', 2)]"
    by (rule monthly_incident_counts_long_example)
qed

theorem monthly_unique_incident_counts_witness:
  "(1, ''Fire'', 1) \<in> set (monthly_incidents_by_type shared_incident_example)
   \<and> (1 :: nat) = card (IncidentNumber `
        {r \<in> set shared_incident_example. CallMonth r = 1 \<and> IncidentGroup r = ''Fire''})
   \<and> (1 :: nat) \<le> length (filter (\<lambda>r. CallMonth r = 1 \<and> IncidentGroup r = ''Fire'')
        shared_incident_example)
   \<and> length (filter (\<lambda>r. CallMonth r = 1 \<and> IncidentGroup r = ''Fire'')
        shared_incident_example) = 2"
proof -
  have row: "(1, ''Fire'', 1) \<in> set (monthly_incidents_by_type shared_incident_example)"
    by (simp add: monthly_incidents_by_type_def group_keys_def nunique_def
          shared_incident_example_def example_incident_def)
  have two: "length (filter (\<lambda>r. CallMonth r = 1 \<and> IncidentGroup r = ''Fire'')
        shared_incident_example) = 2"
    by (simp add: shared_incident_example_def example_incident_def)
  have "\<forall>row \<in> set (monthly_incidents_by_type shared_incident_example).
      (case row of (m, g, c) \<Rightarrow>
         c = card (IncidentNumber `
               {r \<in> set shared_incident_example. CallMonth r = m \<and> IncidentGroup r = g})
         \<and> c \<le> length (filter (\<lambda>r. CallMonth r = m \<and> IncidentGroup r = g)
               shared_incident_example))"
    using monthly_unique_incident_counts [of shared_incident_example] by (rule conjunct1)
  from this row
  have "case (1 :: nat, ''Fire'', 1 :: nat) of (m, g, c) \<Rightarrow>
         c = card (IncidentNumber `
               {r \<in> set shared_incident_example. CallMonth r = m \<and> IncidentGroup r = g})
         \<and> c \<le> length (filter (\<lambda>r. CallMonth r = m \<and> IncidentGroup r = g)
               shared_incident_example)"
    by (rule bspec)
  with row two show ?thesis by simp
qed

section \<open>Key performance indicators\<close>

text \<open>
  The figures of the specification's example: attendance times of 300, 360 and 420 seconds
  have a median of 6 minutes, and two of the three are within 360 seconds, shown as 66.7.
\<close>

lemma kpi_example:
  "median_response [example_incident ''A'' ''Fire'' (Some 300) None,
                    example_incident ''B'' ''Fire'' (Some 360) None,
                    example_incident ''C'' ''Fire'' (Some 420) None] = Some 6
   \<and> map_option round1
        (response_within_6min [example_incident ''A'' ''Fire'' (Some 300) None,
                    example_incident ''B'' ''Fire'' (Some 360) None,
                    example_incident ''C'' ''Fire'' (Some 420) None]) = Some (667 / 10)"
  by (simp add: median_response_def response_within_6min_def pd_median_def pd_mean_bool_def
        div_scalar_def mul_scalar_def example_incident_def round1_def round_half_even_def Let_def floor_rat_numeral_div)


text \<open>
  The script computes the median, the mean and the 90th percentile of the first pump's
  attendance time twice: for the KPIs it takes the statistic of the seconds and divides
  the result by 60, for the distribution chart it divides every value by 60 and takes the
  statistic of the minutes. In exact arithmetic the two agree over every table.
\<close>

lemma exact_statistic_of_minutes:
  "median df = median_response df \<and> mean df = avg_response df \<and> p90 df = p90_response df"
  by (simp add: median_def median_response_def mean_def avg_response_def p90_def
        p90_response_def response_minutes_def pd_median_series_div pd_mean_series_div
        pd_quantile_series_div)

text \<open>
  C10. A record without a first pump attendance time counts in the denominator of the
  share of responses within six minutes, as a response that missed the target, and
  leaves the median, the mean and the 90th percentile as they are without it: the share
  is taken over all records, the three statistics over the records that have a time.
\<close>

theorem null_attendance_in_kpis:
  assumes "FirstPumpArriving_AttendanceTime r = None"
  shows "response_within_6min (xs @ r # ys) =
           Some (of_nat (length (filter (\<lambda>r. le_scalar (FirstPumpArriving_AttendanceTime r) 360)
                                   (xs @ ys)))
                 / of_nat (length (xs @ ys) + 1) * 100)
         \<and> median_response (xs @ r # ys) = median_response (xs @ ys)
         \<and> avg_response (xs @ r # ys) = avg_response (xs @ ys)
         \<and> p90_response (xs @ r # ys) = p90_response (xs @ ys)"
proof -
  have d: "dropna (map FirstPumpArriving_AttendanceTime (xs @ r # ys))
         = dropna (map FirstPumpArriving_AttendanceTime (xs @ ys))"
    using assms by (simp add: dropna_append)
  have "response_within_6min (xs @ r # ys) =
           Some (of_nat (length (filter (\<lambda>r. le_scalar (FirstPumpArriving_AttendanceTime r) 360)
                                   (xs @ ys)))
                 / of_nat (length (xs @ ys) + 1) * 100)"
    using assms by (simp add: response_within_6min_def pd_mean_bool_def mul_scalar_def filter_map comp_def)
  moreover have "median_response (xs @ r # ys) = median_response (xs @ ys)"
    unfolding median_response_def pd_median_def d ..
  moreover have "avg_response (xs @ r # ys) = avg_response (xs @ ys)"
    unfolding avg_response_def pd_mean_def d ..
  moreover have "p90_response (xs @ r # ys) = p90_response (xs @ ys)"
    unfolding p90_response_def pd_quantile_def d ..
  ultimately show ?thesis by simp
qed

theorem null_attendance_in_kpis_witness:
  "FirstPumpArriving_AttendanceTime (example_incident ''N'' ''Fire'' None None) = None
   \<and> response_within_6min
        ([example_incident ''A'' ''Fire'' (Some 300) None]
         @ example_incident ''N'' ''Fire'' None None # []) = Some 50
   \<and> response_within_6min [example_incident ''A'' ''Fire'' (Some 300) None] = Some 100
   \<and> median_response
        ([example_incident ''A'' ''Fire'' (Some 300) None]
         @ example_incident ''N'' ''Fire'' None None # []) = Some 5
   \<and> median_response [example_incident ''A'' ''Fire'' (Some 300) None] = Some 5"
proof -
  have n: "FirstPumpArriving_AttendanceTime (example_incident ''N'' ''Fire'' None None) = None"
    by (simp add: example_incident_def)
  have m: "median_response [example_incident ''A'' ''Fire'' (Some 300) None] = Some 5"
    by (simp add: median_response_def pd_median_def div_scalar_def example_incident_def)
  have p: "response_within_6min [example_incident ''A'' ''Fire'' (Some 300) None] = Some 100"
    by (simp add: response_within_6min_def pd_mean_bool_def mul_scalar_def example_incident_def)
  from null_attendance_in_kpis [OF n, of "[example_incident ''A'' ''Fire'' (Some 300) None]" "[]"]
  show ?thesis using n m p by (simp add: example_incident_def)
qed


section \<open>The two medians in float64 arithmetic\<close>

lemma round_half_even_cases:
  obtains f :: int where "of_int f \<le> y" and "y < of_int f + 1" and "\<lfloor>y\<rfloor> = f"
    and "round_half_even y = f \<or> round_half_even y = f + 1"
    and "round_half_even y =
           (if y - of_int f < 1 / 2 then f else if y - of_int f > 1 / 2 then f + 1
            else if even f then f else f + 1)"
proof -
  define f where "f = \<lfloor>y\<rfloor>"
  have a: "of_int f \<le> y" and b: "y < of_int f + 1" unfolding f_def by linarith+
  have c: "round_half_even y =
           (if y - of_int f < 1 / 2 then f else if y - of_int f > 1 / 2 then f + 1
            else if even f then f else f + 1)"
    by (simp add: round_half_even_def Let_def f_def)
  then have d: "round_half_even y = f \<or> round_half_even y = f + 1"
    by (simp split: if_splits)
  from a b f_def [symmetric] d c show ?thesis by (rule that)
qed

lemma round_half_even_bounds:
  "of_int (round_half_even y) - 1 / 2 \<le> y \<and> y \<le> of_int (round_half_even y) + 1 / 2"
proof -
  obtain f :: int where a: "of_int f \<le> y" and b: "y < of_int f + 1"
    and c: "round_half_even y =
           (if y - of_int f < 1 / 2 then f else if y - of_int f > 1 / 2 then f + 1
            else if even f then f else f + 1)"
    by (rule round_half_even_cases)
  consider "y - of_int f < 1 / 2" | "y - of_int f > 1 / 2" | "y - of_int f = 1 / 2"
    by linarith
  then show ?thesis
  proof cases
    case 1
    with c have "round_half_even y = f" by simp
    with 1 a show ?thesis by simp
  next
    case 2
    with c have "round_half_even y = f + 1" by simp
    with 2 b show ?thesis by simp
  next
    case 3
    with c have "round_half_even y = f \<or> round_half_even y = f + 1" by simp
    with 3 show ?thesis by auto
  qed
qed

lemma round_half_even_of_int [simp]: "round_half_even (of_int n) = n"
  by (simp add: round_half_even_def)

lemma round_half_even_mono:
  assumes "y \<le> z"
  shows "round_half_even y \<le> round_half_even z"
proof -
  obtain f :: int where fy: "\<lfloor>y\<rfloor> = f" and dy: "round_half_even y = f \<or> round_half_even y = f + 1"
    and cy: "round_half_even y =
           (if y - of_int f < 1 / 2 then f else if y - of_int f > 1 / 2 then f + 1
            else if even f then f else f + 1)"
    by (rule round_half_even_cases)
  obtain g :: int where gz: "\<lfloor>z\<rfloor> = g" and dz: "round_half_even z = g \<or> round_half_even z = g + 1"
    and cz: "round_half_even z =
           (if z - of_int g < 1 / 2 then g else if z - of_int g > 1 / 2 then g + 1
            else if even g then g else g + 1)"
    by (rule round_half_even_cases)
  have fg: "f \<le> g" using floor_mono [OF assms] fy gz by simp
  show ?thesis
  proof (cases "f = g")
    case True
    with assms have "y - of_int f \<le> z - of_int g" by simp
    with True cy cz show ?thesis by (auto split: if_splits)
  next
    case False
    with fg have "f + 1 \<le> g" by linarith
    with dy dz show ?thesis by linarith
  qed
qed

lemma round_half_even_ge: "of_int n \<le> y \<Longrightarrow> n \<le> round_half_even y"
  using round_half_even_mono [of "of_int n" y] by simp

lemma round_half_even_le: "y \<le> of_int n \<Longrightarrow> round_half_even y \<le> n"
  using round_half_even_mono [of y "of_int n"] by simp

lemma power_int_2_less_cancel:
  assumes "power_int (2 :: rat) m < power_int 2 n"
  shows "m < n"
proof (rule ccontr)
  assume "\<not> m < n"
  then have "n \<le> m" by simp
  then have "power_int (2 :: rat) n \<le> power_int 2 m"
    by (rule power_int_increasing) simp
  with assms show False by linarith
qed

lemma power_nat_eq_power_int: "0 \<le> k \<Longrightarrow> (2 :: rat) ^ nat k = power_int 2 k"
  using power_int_of_nat [of "2 :: rat" "nat k"] by simp

lemma binade_ge_1:
  fixes z :: rat
  assumes "1 \<le> z"
  shows "2 ^ nat (bitlen \<lfloor>z\<rfloor> - 1) \<le> z \<and> z < 2 ^ nat (bitlen \<lfloor>z\<rfloor>)"
proof -
  from assms have pos: "0 < \<lfloor>z\<rfloor>" by linarith
  from bitlen_bounds [OF pos]
  have lo: "2 ^ nat (bitlen \<lfloor>z\<rfloor> - 1) \<le> \<lfloor>z\<rfloor>" and hi: "\<lfloor>z\<rfloor> < 2 ^ nat (bitlen \<lfloor>z\<rfloor>)"
    by simp_all
  from lo have "(of_int (2 ^ nat (bitlen \<lfloor>z\<rfloor> - 1)) :: rat) \<le> of_int \<lfloor>z\<rfloor>"
    by (simp only: of_int_le_iff)
  then have a: "2 ^ nat (bitlen \<lfloor>z\<rfloor> - 1) \<le> z"
    by (simp add: le_floor_iff)
  from hi have "\<lfloor>z\<rfloor> + 1 \<le> 2 ^ nat (bitlen \<lfloor>z\<rfloor>)" by linarith
  then have "(of_int (\<lfloor>z\<rfloor> + 1) :: rat) \<le> of_int (2 ^ nat (bitlen \<lfloor>z\<rfloor>))"
    by (simp only: of_int_le_iff)
  moreover have "z < of_int (\<lfloor>z\<rfloor> + 1)" by simp linarith
  ultimately have b: "z < 2 ^ nat (bitlen \<lfloor>z\<rfloor>)" by simp
  from a b show ?thesis ..
qed

lemma bitlen_pos: "0 < n \<Longrightarrow> 1 \<le> bitlen n"
  using bitlen_eq_zero_iff [of n] bitlen_nonneg [of n] by linarith

lemma binade_bounds:
  assumes "0 < x"
  shows "power_int 2 (binade x) \<le> x \<and> x < power_int 2 (binade x + 1)"
proof -
  define s where "s = (if 1 \<le> x then 0 else bitlen \<lfloor>1 / x\<rfloor>)"
  define z where "z = x * 2 ^ nat s"
  have s0: "0 \<le> s" by (simp add: s_def bitlen_nonneg)
  have z1: "1 \<le> z"
  proof (cases "1 \<le> x")
    case True
    then show ?thesis by (simp add: z_def s_def)
  next
    case False
    with assms have "1 \<le> 1 / x" by simp
    from binade_ge_1 [OF this] have "1 / x < 2 ^ nat (bitlen \<lfloor>1 / x\<rfloor>)" by simp
    with assms have "1 < x * 2 ^ nat (bitlen \<lfloor>1 / x\<rfloor>)"
      by (simp add: field_simps)
    with False show ?thesis by (simp add: z_def s_def)
  qed
  define b where "b = bitlen \<lfloor>z\<rfloor>"
  from z1 have "0 < \<lfloor>z\<rfloor>" by linarith
  then have b1: "1 \<le> b" unfolding b_def by (rule bitlen_pos)
  have e: "binade x = b - 1 - s"
    by (simp add: binade_def Let_def s_def z_def b_def)
  from binade_ge_1 [OF z1] have lo: "2 ^ nat (b - 1) \<le> z" and hi: "z < 2 ^ nat b"
    by (simp_all add: b_def)
  have p: "(2 :: rat) ^ nat s = power_int 2 s" using s0 by (rule power_nat_eq_power_int)
  have q1: "(2 :: rat) ^ nat (b - 1) = power_int 2 (b - 1)"
    using b1 by (intro power_nat_eq_power_int) simp
  have q2: "(2 :: rat) ^ nat b = power_int 2 b"
    using b1 by (intro power_nat_eq_power_int) simp
  have x: "x = z / power_int 2 s" by (simp add: z_def p [symmetric])
  have d1: "power_int 2 (b - 1 - s) = power_int (2 :: rat) (b - 1) / power_int 2 s"
    by (rule power_int_diff) simp
  have d2: "power_int 2 (b - 1 - s + 1) = power_int (2 :: rat) b / power_int 2 s"
    using power_int_diff [of "2 :: rat" b s] by simp
  have pos: "0 < power_int (2 :: rat) s" by simp
  from lo have "power_int 2 (b - 1) / power_int 2 s \<le> z / power_int 2 s"
    unfolding q1 using pos by (simp add: divide_right_mono)
  moreover from hi have "z / power_int 2 s < power_int 2 b / power_int 2 s"
    unfolding q2 using pos by (simp add: divide_strict_right_mono)
  ultimately show ?thesis
    unfolding e d1 d2 x [symmetric] by simp
qed

lemma binade_unique:
  assumes "power_int 2 e \<le> x" and "x < power_int 2 (e + 1)"
  shows "binade x = e"
proof -
  have "0 < power_int (2 :: rat) e" by simp
  with assms(1) have pos: "0 < x" by linarith
  from binade_bounds [OF pos]
  have lo: "power_int 2 (binade x) \<le> x" and hi: "x < power_int 2 (binade x + 1)" by simp_all
  have "power_int (2 :: rat) e < power_int 2 (binade x + 1)" using assms(1) hi by linarith
  then have "e < binade x + 1" by (rule power_int_2_less_cancel)
  moreover have "power_int (2 :: rat) (binade x) < power_int 2 (e + 1)" using lo assms(2) by linarith
  then have "binade x < e + 1" by (rule power_int_2_less_cancel)
  ultimately show ?thesis by linarith
qed

lemma binade_mono:
  assumes "0 < x" and "x \<le> y"
  shows "binade x \<le> binade y"
proof -
  from assms have "0 < y" by linarith
  from binade_bounds [OF assms(1)] binade_bounds [OF this] assms(2)
  have "power_int (2 :: rat) (binade x) < power_int 2 (binade y + 1)" by linarith
  then have "binade x < binade y + 1" by (rule power_int_2_less_cancel)
  then show ?thesis by linarith
qed

lemma round_float64_pos:
  assumes "0 < x"
  shows "round_float64 x =
           of_int (round_half_even (x / power_int 2 (binade x - 52))) * power_int 2 (binade x - 52)"
  using assms by (simp add: round_float64_def Let_def)

lemma round_float64_minus: "round_float64 (- x) = - round_float64 x"
  by (simp add: round_float64_def Let_def)

lemma round_float64_eval:
  assumes "power_int 2 e \<le> x" and "x < power_int 2 (e + 1)"
  shows "round_float64 x =
           of_int (round_half_even (x / power_int 2 (e - 52))) * power_int 2 (e - 52)"
proof -
  have "0 < power_int (2 :: rat) e" by simp
  with assms(1) have "0 < x" by linarith
  then show ?thesis
    by (simp only: round_float64_pos binade_unique [OF assms])
qed

lemma round_float64_bounds:
  assumes "0 < x"
  shows "power_int 2 (binade x) \<le> round_float64 x
         \<and> round_float64 x \<le> power_int 2 (binade x + 1)"
proof -
  define e where "e = binade x"
  define u :: rat where "u = power_int 2 (e - 52)"
  have u: "0 < u" by (simp add: u_def)
  have lo: "power_int 2 e = of_int (2 ^ 52) * u"
    using power_int_add [of "2 :: rat" 52 "e - 52"] by (simp add: u_def)
  have hi: "power_int 2 (e + 1) = of_int (2 ^ 53) * u"
    using power_int_add [of "2 :: rat" 53 "e - 52"] by (simp add: u_def add.commute)
  from binade_bounds [OF assms]
  have "of_int (2 ^ 52) * u \<le> x" and "x < of_int (2 ^ 53) * u"
    unfolding e_def [symmetric] lo hi by simp_all
  then have a: "of_int (2 ^ 52) \<le> x / u" and b: "x / u \<le> of_int (2 ^ 53)"
    using u by (simp_all add: pos_le_divide_eq pos_divide_le_eq)
  have "2 ^ 52 \<le> round_half_even (x / u)" using a by (rule round_half_even_ge)
  moreover have "round_half_even (x / u) \<le> 2 ^ 53" using b by (rule round_half_even_le)
  ultimately have "(of_int (2 ^ 52) :: rat) \<le> of_int (round_half_even (x / u))"
    and "(of_int (round_half_even (x / u)) :: rat) \<le> of_int (2 ^ 53)"
    by (simp_all only: of_int_le_iff)
  then have "of_int (2 ^ 52) * u \<le> of_int (round_half_even (x / u)) * u"
    and "of_int (round_half_even (x / u)) * u \<le> of_int (2 ^ 53) * u"
    using u by (simp_all only: mult_le_cancel_right_pos)
  then show ?thesis
    unfolding round_float64_pos [OF assms] e_def [symmetric] u_def [symmetric] lo hi
    by (rule conjI)
qed

lemma round_float64_positive: "0 < x \<Longrightarrow> 0 < round_float64 x"
proof -
  assume "0 < x"
  from round_float64_bounds [OF this] have "power_int 2 (binade x) \<le> round_float64 x" ..
  moreover have "0 < power_int (2 :: rat) (binade x)" by simp
  ultimately show ?thesis by linarith
qed

lemma round_float64_mono_pos:
  assumes "0 < x" and "x \<le> y"
  shows "round_float64 x \<le> round_float64 y"
proof -
  from assms have y: "0 < y" by linarith
  have le: "binade x \<le> binade y" using assms by (rule binade_mono)
  show ?thesis
  proof (cases "binade x = binade y")
    case True
    define u :: rat where "u = power_int 2 (binade y - 52)"
    have u: "0 < u" by (simp add: u_def)
    from assms(2) u have "x / u \<le> y / u" by (simp add: divide_right_mono)
    then have "round_half_even (x / u) \<le> round_half_even (y / u)"
      by (rule round_half_even_mono)
    then have "(of_int (round_half_even (x / u)) :: rat) \<le> of_int (round_half_even (y / u))"
      by (simp only: of_int_le_iff)
    then have "of_int (round_half_even (x / u)) * u \<le> of_int (round_half_even (y / u)) * u"
      using u by (simp only: mult_le_cancel_right_pos)
    then show ?thesis
      unfolding round_float64_pos [OF assms(1)] round_float64_pos [OF y] True u_def [symmetric] .
  next
    case False
    with le have "binade x + 1 \<le> binade y" by linarith
    then have "power_int (2 :: rat) (binade x + 1) \<le> power_int 2 (binade y)"
      by (rule power_int_increasing) simp
    with round_float64_bounds [OF assms(1)] round_float64_bounds [OF y]
    show ?thesis by linarith
  qed
qed

lemma round_float64_mono:
  assumes "x \<le> y"
  shows "round_float64 x \<le> round_float64 y"
proof -
  consider "0 < x" | "x = 0" "y = 0" | "x = 0" "0 < y" | "x < 0" "0 \<le> y" | "x < 0" "y < 0"
    using assms by linarith
  then show ?thesis
  proof cases
    case 1
    then show ?thesis using assms by (rule round_float64_mono_pos)
  next
    case 2
    then show ?thesis by simp
  next
    case 3
    then show ?thesis
      using round_float64_positive [of y] by (simp add: round_float64_def)
  next
    case 4
    from 4(1) have "0 < round_float64 (- x)" by (intro round_float64_positive) simp
    then have a: "round_float64 x < 0" by (simp add: round_float64_minus)
    have "0 \<le> round_float64 y"
    proof (cases "y = 0")
      case True
      then show ?thesis by (simp add: round_float64_def)
    next
      case False
      with 4(2) have "0 < y" by simp
      then show ?thesis using round_float64_positive [of y] by simp
    qed
    with a show ?thesis by linarith
  next
    case 5
    then have "0 < - y" and "- y \<le> - x" using assms by simp_all
    then have "round_float64 (- y) \<le> round_float64 (- x)" by (rule round_float64_mono_pos)
    then show ?thesis by (simp add: round_float64_minus)
  qed
qed

lemma float_div_mono: "0 < c \<Longrightarrow> x \<le> y \<Longrightarrow> float_div x c \<le> float_div y c"
  unfolding float_div_def by (intro round_float64_mono divide_right_mono) simp_all

lemma insort_map_mono:
  fixes g :: "rat \<Rightarrow> rat"
  assumes mono: "\<And>a b. a \<le> b \<Longrightarrow> g a \<le> g b" and "sorted ys"
  shows "insort (g x) (map g ys) = map g (insort x ys)"
  using assms(2)
proof (induction ys)
  case Nil
  then show ?case by simp
next
  case (Cons y ys)
  then have ih: "insort (g x) (map g ys) = map g (insort x ys)" by simp
  show ?case
  proof (cases "x \<le> y")
    case True
    then have "g x \<le> g y" by (rule mono)
    with True show ?thesis by simp
  next
    case False
    then have "g y \<le> g x" by (intro mono) simp
    show ?thesis
    proof (cases "g x \<le> g y")
      case le: True
      with \<open>g y \<le> g x\<close> have eq: "g x = g y" by simp
      have "insort (g y) (map g ys) = g y # map g ys"
      proof (cases ys)
        case Nil
        then show ?thesis by simp
      next
        case (Cons z zs)
        with Cons.prems have "y \<le> z" by simp
        then have "g y \<le> g z" by (rule mono)
        with Cons show ?thesis by simp
      qed
      then have hd_ins: "g y # g y # map g ys = g y # insort (g y) (map g ys)"
        by (simp only:)
      have "insort (g x) (map g (y # ys)) = g x # g y # map g ys" using le by simp
      also have "\<dots> = g y # g y # map g ys" by (simp only: eq)
      also have "\<dots> = g y # insort (g y) (map g ys)" by (rule hd_ins)
      also have "\<dots> = g y # insort (g x) (map g ys)" by (simp only: eq)
      also have "\<dots> = g y # map g (insort x ys)" by (simp only: ih)
      also have "\<dots> = map g (insort x (y # ys))" using False by simp
      finally show ?thesis .
    next
      case gt: False
      with False ih show ?thesis by simp
    qed
  qed
qed

lemma sort_map_mono:
  fixes g :: "rat \<Rightarrow> rat"
  assumes "\<And>a b. a \<le> b \<Longrightarrow> g a \<le> g b"
  shows "sort (map g xs) = map g (sort xs)"
proof (induction xs)
  case Nil
  then show ?case by simp
next
  case (Cons a xs)
  have "sort (map g (a # xs)) = insort (g a) (sort (map g xs))"
    by (simp add: sort_key_simps)
  also have "\<dots> = insort (g a) (map g (sort xs))" by (simp only: Cons.IH)
  also have "\<dots> = map g (insort a (sort xs))"
    by (rule insort_map_mono) (rule assms, assumption, rule sorted_sort)
  also have "\<dots> = map g (sort (a # xs))" by (simp add: sort_key_simps)
  finally show ?case .
qed

lemma dropna_float_series_div:
  "dropna (float_series_div s c) = map (\<lambda>x. float_div x c) (dropna s)"
  by (induction s rule: dropna.induct) (simp_all add: float_series_div_def)

text \<open>
  C8 (as the script has it). In float64 arithmetic, over every table with an odd number of
  records that have a first pump attendance time, the median of the minutes (every time
  divided by 60, then the median) is the same number as the median of the seconds divided
  by 60: the median is then one of the times, and rounding the quotients by 60 keeps
  their order.
\<close>

theorem float_median_of_odd_count:
  assumes "odd (length (dropna (map FirstPumpArriving_AttendanceTime df)))"
  shows "float_median_minutes df = float_median_response df"
proof -
  define s where "s = map FirstPumpArriving_AttendanceTime df"
  define vs where "vs = sort (dropna s)"
  have n: "odd (length vs)" using assms by (simp add: vs_def s_def)
  then have pos: "0 < length vs" by (cases vs) simp_all
  have i: "length vs div 2 < length vs" using pos by arith
  have srt: "sort (map (\<lambda>x. float_div x 60) (dropna s)) = map (\<lambda>x. float_div x 60) vs"
    unfolding vs_def by (rule sort_map_mono) (simp add: float_div_mono)
  have "float_median (float_series_div s 60) = Some (map (\<lambda>x. float_div x 60) vs ! (length vs div 2))"
    using n pos by (simp add: float_median_def dropna_float_series_div srt Let_def)
  also have "\<dots> = Some (float_div (vs ! (length vs div 2)) 60)"
    by (simp only: nth_map [OF i])
  also have "\<dots> = map_option (\<lambda>v. float_div v 60) (float_median s)"
    using n pos by (simp add: float_median_def Let_def vs_def [symmetric])
  finally show ?thesis
    by (simp add: float_median_minutes_def float_response_minutes_def
          float_median_response_def s_def)
qed


lemma float_div_200_60: "float_div 200 60 = 7505999378950827 / 2 ^ 51"
proof -
  have "round_float64 (200 / 60) =
      of_int (round_half_even ((200 / 60) / power_int 2 (1 - 52))) * power_int 2 (1 - 52)"
    by (rule round_float64_eval) simp_all
  then show ?thesis
    by (simp add: float_div_def round_half_even_def floor_rat_numeral_div power_int_minus)
qed

lemma float_div_223_60: "float_div 223 60 = 8369189307530172 / 2 ^ 51"
proof -
  have "round_float64 (223 / 60) =
      of_int (round_half_even ((223 / 60) / power_int 2 (1 - 52))) * power_int 2 (1 - 52)"
    by (rule round_float64_eval) simp_all
  then show ?thesis
    by (simp add: float_div_def round_half_even_def floor_rat_numeral_div power_int_minus)
qed

lemma float_add_minutes:
  "float_add (7505999378950827 / 2 ^ 51) (8369189307530172 / 2 ^ 51) = 7937594343240500 / 2 ^ 50"
proof -
  have "round_float64 (7505999378950827 / 2 ^ 51 + 8369189307530172 / 2 ^ 51) =
      of_int (round_half_even ((7505999378950827 / 2 ^ 51 + 8369189307530172 / 2 ^ 51)
                 / power_int 2 (2 - 52))) * power_int 2 (2 - 52)"
    by (rule round_float64_eval) simp_all
  then show ?thesis
    by (simp add: float_add_def round_half_even_def floor_rat_numeral_div power_int_minus)
qed

lemma float_div_sum_2: "float_div (7937594343240500 / 2 ^ 50) 2 = 7937594343240500 / 2 ^ 51"
proof -
  have "round_float64 (7937594343240500 / 2 ^ 50 / 2) =
      of_int (round_half_even ((7937594343240500 / 2 ^ 50 / 2) / power_int 2 (1 - 52)))
        * power_int 2 (1 - 52)"
    by (rule round_float64_eval) simp_all
  then show ?thesis
    by (simp add: float_div_def round_half_even_def floor_rat_numeral_div power_int_minus)
qed

lemma float_add_200_223: "float_add 200 223 = 423"
proof -
  have "round_float64 (200 + 223) =
      of_int (round_half_even ((200 + 223) / power_int 2 (8 - 52))) * power_int 2 (8 - 52)"
    by (rule round_float64_eval) simp_all
  then show ?thesis
    by (simp add: float_add_def round_half_even_def power_int_minus)
qed

lemma float_div_423_2: "float_div 423 2 = 423 / 2"
proof -
  have "round_float64 (423 / 2) =
      of_int (round_half_even ((423 / 2) / power_int 2 (7 - 52))) * power_int 2 (7 - 52)"
    by (rule round_float64_eval) simp_all
  then show ?thesis
    by (simp add: float_div_def round_half_even_def power_int_minus)
qed

lemma float_div_half_423_60: "float_div (423 / 2) 60 = 7937594343240499 / 2 ^ 51"
proof -
  have "round_float64 (423 / 2 / 60) =
      of_int (round_half_even ((423 / 2 / 60) / power_int 2 (1 - 52))) * power_int 2 (1 - 52)"
    by (rule round_float64_eval) simp_all
  then show ?thesis
    by (simp add: float_div_def round_half_even_def floor_rat_numeral_div power_int_minus)
qed

lemma float_median_response_two_times:
  "float_median_response two_times_example = Some (7937594343240499 / 2 ^ 51)"
proof -
  have "float_median_response two_times_example
      = Some (float_div (float_div (float_add 200 223) 2) 60)"
    by (simp add: float_median_response_def float_median_def two_times_example_def
          example_incident_def)
  then show ?thesis
    by (simp only: float_add_200_223 float_div_423_2 float_div_half_423_60)
qed

lemma float_median_minutes_two_times:
  "float_median_minutes two_times_example = Some (7937594343240500 / 2 ^ 51)"
proof -
  have le: "float_div 200 60 \<le> float_div 223 60"
    by (rule float_div_mono) simp_all
  have "float_median_minutes two_times_example
      = Some (float_div (float_add (float_div 200 60) (float_div 223 60)) 2)"
    using le
    by (simp add: float_median_minutes_def float_response_minutes_def float_series_div_def
          float_median_def two_times_example_def example_incident_def)
  then show ?thesis
    by (simp only: float_div_200_60 float_div_223_60 float_add_minutes float_div_sum_2)
qed

theorem float_median_of_odd_count_witness:
  "odd (length (dropna (map FirstPumpArriving_AttendanceTime three_times_example)))
   \<and> float_median_minutes three_times_example = float_median_response three_times_example
   \<and> float_median_response three_times_example = Some (8369189307530172 / 2 ^ 51)"
proof -
  have o: "odd (length (dropna (map FirstPumpArriving_AttendanceTime three_times_example)))"
    by (simp add: three_times_example_def example_incident_def)
  have "float_median_response three_times_example = Some (float_div 223 60)"
    by (simp add: float_median_response_def float_median_def three_times_example_def
          example_incident_def)
  then have v: "float_median_response three_times_example = Some (8369189307530172 / 2 ^ 51)"
    by (simp only: float_div_223_60)
  from float_median_of_odd_count [OF o] o v show ?thesis by (simp only: simp_thms)
qed

text \<open>
  With an even number of times the median adds two values, and the two ways round
  differently. For attendance times of 200 and 223 seconds the median of the seconds
  divided by 60 is the double next below 3.525 and the median of the minutes is the double
  next above it; printed with two decimals, as the script prints both, they read 3.52
  and 3.53.
\<close>

theorem float_medians_of_two_times_differ:
  "float_median_response two_times_example = Some (7937594343240499 / 2 ^ 51)
   \<and> float_median_minutes two_times_example = Some (7937594343240500 / 2 ^ 51)
   \<and> float_median_minutes two_times_example \<noteq> float_median_response two_times_example
   \<and> map_option round2 (float_median_response two_times_example) = Some (352 / 100)
   \<and> map_option round2 (float_median_minutes two_times_example) = Some (353 / 100)"
  by (simp add: float_median_response_two_times float_median_minutes_two_times round2_def
        round_half_even_def floor_rat_numeral_div)


section \<open>Turnout and travel as parts of one total\<close>

lemma find_Some_mem: "find P xs = Some x \<Longrightarrow> x \<in> set xs"
  by (induction xs) (auto split: if_splits)

lemma loc_subset: "loc rows ks = Inr out \<Longrightarrow> set out \<subseteq> set rows"
proof (induction ks arbitrary: out)
  case Nil
  then show ?case by simp
next
  case (Cons k ks)
  then show ?case
    by (auto split: option.splits sum.splits dest: find_Some_mem)
qed


text \<open>
  C9. In every row of the decomposition table, before and after its rows are put in the
  order Fire, Special Service, False Alarm, whose total of mean turnout and mean travel
  minutes is a positive number, the turnout percentage and the travel percentage are
  both defined and add up to 100.
\<close>

theorem turnout_travel_percent_sum:
  assumes "row \<in> set (decomposition df)
           \<or> (\<exists>rows. decomposition_ordered df = Inr rows \<and> row \<in> set rows)"
    and "TotalMinutes row = Some t" and "0 < t"
  shows "TotalMinutes row = pd_add (dec_TurnoutTimeSeconds row) (dec_TravelTimeSeconds row)
         \<and> (\<exists>x y. TurnoutPercent row = Some x \<and> TravelPercent row = Some y \<and> x + y = 100)"
proof -
  from assms(1) have "row \<in> set (decomposition df)"
    using loc_subset by (auto simp: decomposition_ordered_def)
  then obtain g where row: "row = decomposition_group df g"
    by (auto simp: decomposition_def)
  have tot: "TotalMinutes row = pd_add (dec_TurnoutTimeSeconds row) (dec_TravelTimeSeconds row)"
    by (simp add: row decomposition_group_def Let_def)
  with assms(2) have "pd_add (dec_TurnoutTimeSeconds row) (dec_TravelTimeSeconds row) = Some t"
    by simp
  from pd_div_mul_sum [OF this] assms(3)
  have "\<exists>x y. mul_scalar (pd_div (dec_TurnoutTimeSeconds row) (Some t)) 100 = Some x
            \<and> mul_scalar (pd_div (dec_TravelTimeSeconds row) (Some t)) 100 = Some y \<and> x + y = 100"
    by simp
  moreover have "TurnoutPercent row = mul_scalar (pd_div (dec_TurnoutTimeSeconds row) (TotalMinutes row)) 100"
    by (simp add: row decomposition_group_def Let_def)
  moreover have "TravelPercent row = mul_scalar (pd_div (dec_TravelTimeSeconds row) (TotalMinutes row)) 100"
    by (simp add: row decomposition_group_def Let_def)
  ultimately show ?thesis using tot assms(2) by simp
qed

theorem turnout_travel_percent_sum_witness:
  "decomposition_group [example_incident ''A'' ''Fire'' (Some 300) None] ''Fire''
     \<in> set (decomposition [example_incident ''A'' ''Fire'' (Some 300) None])
   \<and> TotalMinutes
        (decomposition_group [example_incident ''A'' ''Fire'' (Some 300) None] ''Fire'') = Some 5
   \<and> (0 :: rat) < 5
   \<and> TurnoutPercent
        (decomposition_group [example_incident ''A'' ''Fire'' (Some 300) None] ''Fire'') = Some 20
   \<and> (\<exists>x y. TurnoutPercent
        (decomposition_group [example_incident ''A'' ''Fire'' (Some 300) None] ''Fire'') = Some x
      \<and> TravelPercent
        (decomposition_group [example_incident ''A'' ''Fire'' (Some 300) None] ''Fire'') = Some y
      \<and> x + y = 100)"
proof -
  let ?df = "[example_incident ''A'' ''Fire'' (Some 300) None]"
  let ?row = "decomposition_group ?df ''Fire''"
  have mem: "?row \<in> set (decomposition ?df)"
    by (simp add: decomposition_def group_keys_def example_incident_def)
  have tot: "TotalMinutes ?row = Some 5"
    by (simp add: decomposition_group_def pd_mean_def div_scalar_def example_incident_def)
  have tp: "TurnoutPercent ?row = Some 20"
    by (simp add: decomposition_group_def pd_mean_def div_scalar_def mul_scalar_def
          example_incident_def)
  have "\<exists>x y. TurnoutPercent ?row = Some x \<and> TravelPercent ?row = Some y \<and> x + y = 100"
    using turnout_travel_percent_sum [of ?row ?df 5] mem tot by simp
  with mem tot tp show ?thesis by simp
qed

section \<open>The heatmap table\<close>

lemma length_weekday_order: "length weekday_order = 7"
  by (simp add: weekday_order_def)

text \<open>
  C3 (as the script has it). For every table the heatmap table has 24 rows, one per hour
  0 to 23, of 7 cells each, one per weekday from Monday to Sunday in that order. A cell
  whose hour and weekday no record has is missing (NaN), it does not hold zero; every
  other cell holds the number of distinct incident numbers of its records.
\<close>

theorem heatmap_dense:
  "length (daily_hourly_incidents df) = 24
   \<and> (\<forall>row \<in> set (daily_hourly_incidents df). length row = 7)
   \<and> (\<forall>h < 24. \<forall>i < 7.
        daily_hourly_incidents df ! h ! i =
          (if \<exists>r \<in> set df. HourOfCall r = h \<and> CallWeekday r = weekday_order ! i
           then Some (card (IncidentNumber `
                  {r \<in> set df. HourOfCall r = h \<and> CallWeekday r = weekday_order ! i}))
           else None))"
proof (intro conjI allI impI ballI)
  show "length (daily_hourly_incidents df) = 24"
    by (simp add: daily_hourly_incidents_def)
next
  fix row assume "row \<in> set (daily_hourly_incidents df)"
  then show "length row = 7"
    by (auto simp: daily_hourly_incidents_def weekday_order_def)
next
  fix h i :: nat assume h: "h < 24" and i: "i < 7"
  have "daily_hourly_incidents df ! h ! i = pivot_table_nunique df h (weekday_order ! i)"
    using h i by (simp add: daily_hourly_incidents_def length_weekday_order)
  also have "\<dots> = (if \<exists>r \<in> set df. HourOfCall r = h \<and> CallWeekday r = weekday_order ! i
           then Some (card (IncidentNumber `
                  {r \<in> set df. HourOfCall r = h \<and> CallWeekday r = weekday_order ! i}))
           else None)"
    by (auto simp: pivot_table_nunique_def Let_def nunique_filter_card filter_empty_conv)
  finally show "daily_hourly_incidents df ! h ! i =
          (if \<exists>r \<in> set df. HourOfCall r = h \<and> CallWeekday r = weekday_order ! i
           then Some (card (IncidentNumber `
                  {r \<in> set df. HourOfCall r = h \<and> CallWeekday r = weekday_order ! i}))
           else None)" .
qed

theorem heatmap_dense_witness:
  "daily_hourly_incidents [example_incident ''A'' ''Fire'' (Some 300) None] ! 0 ! 1 = None
   \<and> daily_hourly_incidents [example_incident ''A'' ''Fire'' (Some 300) None] ! 9 ! 0 =
       Some (card (IncidentNumber `
         {r \<in> set [example_incident ''A'' ''Fire'' (Some 300) None].
            HourOfCall r = 9 \<and> CallWeekday r = weekday_order ! 0}))
   \<and> daily_hourly_incidents [example_incident ''A'' ''Fire'' (Some 300) None] ! 9 ! 0 = Some 1"
proof -
  let ?df = "[example_incident ''A'' ''Fire'' (Some 300) None]"
  have cells: "\<forall>h < 24. \<forall>i < 7.
        daily_hourly_incidents ?df ! h ! i =
          (if \<exists>r \<in> set ?df. HourOfCall r = h \<and> CallWeekday r = weekday_order ! i
           then Some (card (IncidentNumber `
                  {r \<in> set ?df. HourOfCall r = h \<and> CallWeekday r = weekday_order ! i}))
           else None)"
    using heatmap_dense [of ?df] by (rule conjunct2 [THEN conjunct2])
  have no: "\<not> (\<exists>r \<in> set ?df. HourOfCall r = 0 \<and> CallWeekday r = weekday_order ! 1)"
    by (simp add: example_incident_def)
  have yes: "\<exists>r \<in> set ?df. HourOfCall r = 9 \<and> CallWeekday r = weekday_order ! 0"
    by (simp add: example_incident_def weekday_order_def)
  from cells have "daily_hourly_incidents ?df ! 0 ! 1 =
          (if \<exists>r \<in> set ?df. HourOfCall r = 0 \<and> CallWeekday r = weekday_order ! 1
           then Some (card (IncidentNumber `
                  {r \<in> set ?df. HourOfCall r = 0 \<and> CallWeekday r = weekday_order ! 1}))
           else None)"
    by simp
  with no have empty: "daily_hourly_incidents ?df ! 0 ! 1 = None"
    by (simp only: if_False)
  from cells have "daily_hourly_incidents ?df ! 9 ! 0 =
          (if \<exists>r \<in> set ?df. HourOfCall r = 9 \<and> CallWeekday r = weekday_order ! 0
           then Some (card (IncidentNumber `
                  {r \<in> set ?df. HourOfCall r = 9 \<and> CallWeekday r = weekday_order ! 0}))
           else None)"
    by simp
  with yes have full: "daily_hourly_incidents ?df ! 9 ! 0 =
       Some (card (IncidentNumber `
         {r \<in> set ?df. HourOfCall r = 9 \<and> CallWeekday r = weekday_order ! 0}))"
    by (simp only: if_True)
  have one: "daily_hourly_incidents ?df ! 9 ! 0 = Some 1"
    by (simp add: daily_hourly_incidents_def weekday_order_def pivot_table_nunique_def
          example_incident_def nunique_def)
  from empty full one show ?thesis by (simp only: simp_thms)
qed

text \<open>
  The table of one record (Monday, 9 o'clock) has no record at 0 o'clock on Tuesday, and
  its cell for that hour and day is missing, not zero.
\<close>

theorem heatmap_cell_without_incidents_is_not_zero:
  "filter (\<lambda>r. HourOfCall r = 0 \<and> CallWeekday r = weekday_order ! 1)
      [example_incident ''A'' ''Fire'' (Some 300) None] = []
   \<and> daily_hourly_incidents [example_incident ''A'' ''Fire'' (Some 300) None] ! 0 ! 1 = None
   \<and> daily_hourly_incidents [example_incident ''A'' ''Fire'' (Some 300) None] ! 0 ! 1 \<noteq> Some 0"
  by (simp add: daily_hourly_incidents_def weekday_order_def pivot_table_nunique_def
        example_incident_def)

section \<open>Response time bands\<close>

lemma ResponseBand_in_labels: "ResponseBand r = Some b \<Longrightarrow> b \<in> set labels"
  by (auto simp: ResponseBand_def pd_cut_def Let_def labels_def bins_def searchsorted_left_def
      split: option.splits if_splits)

text \<open>
  C4. Both bandings are closed on the right: in the banding by incident type a time of
  exactly 6 minutes is in the first band, 8 in the second, 10 in the third, and every
  time above 10 is in the last band; in the banding of the whole distribution 4, 6 and 8
  minutes are in the bands they close. There the last band ends at 20 minutes: a first
  pump that took 1260 seconds (21 minutes) is in the last band by incident type and in no
  band of the distribution, whose percentages then leave the record out.
\<close>

theorem response_band_assignment:
  "pd_cut bins labels (Some x) =
     (if x \<le> 0 then None
      else if x \<le> 6 then Some ''<= 6 min''
      else if x \<le> 8 then Some ''6-8 min''
      else if x \<le> 10 then Some ''8-10 min''
      else Some ''> 10 min'')
   \<and> distribution_band (Some x) =
     (if x \<le> 0 then None
      else if x \<le> 4 then Some ''<4 min''
      else if x \<le> 6 then Some ''4-6 min''
      else if x \<le> 8 then Some ''6-8 min''
      else if x \<le> 20 then Some ''>8 min''
      else None)
   \<and> ResponseBand (example_incident ''A'' ''Fire'' (Some 1260) None) = Some ''> 10 min''
   \<and> map distribution_band (response_minutes [example_incident ''A'' ''Fire'' (Some 1260) None])
       = [None]
   \<and> band_distribution [example_incident ''A'' ''Fire'' (Some 1260) None,
                         example_incident ''B'' ''Fire'' (Some 540) None]
       = [(''<4 min'', Some 0), (''4-6 min'', Some 0), (''6-8 min'', Some 0),
          (''>8 min'', Some 100)]"
proof -
  have first: "pd_cut bins labels (Some y) =
     (if y \<le> 0 then None
      else if y \<le> 6 then Some ''<= 6 min''
      else if y \<le> 8 then Some ''6-8 min''
      else if y \<le> 10 then Some ''8-10 min''
      else Some ''> 10 min'')" for y
    by (simp add: pd_cut_def searchsorted_left_def bins_def labels_def)
  have second: "distribution_band (Some y) =
     (if y \<le> 0 then None
      else if y \<le> 4 then Some ''<4 min''
      else if y \<le> 6 then Some ''4-6 min''
      else if y \<le> 8 then Some ''6-8 min''
      else if y \<le> 20 then Some ''>8 min''
      else None)" for y
    by (simp add: distribution_band_def pd_cut_def searchsorted_left_def
          bins_distribution_def labels_distribution_def)
  have a: "ResponseBand (example_incident ''A'' ''Fire'' (Some 1260) None) = Some ''> 10 min''"
    by (simp add: ResponseBand_def ResponseMinutes_def div_scalar_def first example_incident_def)
  have b: "map distribution_band
      (response_minutes [example_incident ''A'' ''Fire'' (Some 1260) None]) = [None]"
    by (simp add: response_minutes_def series_div_def div_scalar_def second example_incident_def)
  have c: "band_distribution [example_incident ''A'' ''Fire'' (Some 1260) None,
                         example_incident ''B'' ''Fire'' (Some 540) None]
       = [(''<4 min'', Some 0), (''4-6 min'', Some 0), (''6-8 min'', Some 0),
          (''>8 min'', Some 100)]"
    by (simp add: response_minutes_def series_div_def div_scalar_def second example_incident_def
          band_distribution_def mul_scalar_def round1_def round_half_even_def
          labels_distribution_def)
  from first [of x] second [of x] a b c show ?thesis by (simp only: simp_thms)
qed

section \<open>Band percentages within an incident type\<close>

lemma group_keys_cong: "set xs = set ys \<Longrightarrow> group_keys xs = group_keys ys"
  unfolding group_keys_def by (metis sorted_list_of_set_sort_remdups)

lemma filter_group_block:
  assumes "distinct gs"
  shows "filter (\<lambda>row. fst row = g) (concat (map (\<lambda>g. map (\<lambda>b. (g, b, cnt g b)) ls) gs))
         = (if g \<in> set gs then map (\<lambda>b. (g, b, cnt g b)) ls else [])"
  using assms
proof (induction gs)
  case Nil
  then show ?case by simp
next
  case (Cons a gs)
  have blk: "filter (\<lambda>row. fst row = g) (map (\<lambda>b. (a, b, cnt a b)) ls)
       = (if a = g then map (\<lambda>b. (a, b, cnt a b)) ls else [])"
    by (induction ls) auto
  from Cons show ?case by (auto simp: blk)
qed

lemma group_count_sum_block:
  assumes "distinct gs" and "g \<in> set gs"
  shows "group_count_sum (concat (map (\<lambda>g. map (\<lambda>b. (g, b, cnt g b)) ls) gs)) g
         = sum_list (map (cnt g) ls)"
  using assms by (simp add: group_count_sum_def filter_group_block comp_def)

lemma map_of_function:
  assumes "\<forall>(k, v) \<in> set xs. v = f k" and "k \<in> fst ` set xs"
  shows "map_of xs k = Some (f k)"
  using assms by (induction xs) auto

lemma band_pivot_rows:
  "band_pivot df =
     map (\<lambda>g. (g, map (\<lambda>b. fillna0 (pd_div (Some (100 * of_nat (band_count df g b)))
                                          (Some (of_nat (sum_list (map (band_count df g) labels))))))
                      labels))
         (group_keys (map IncidentGroup df))"
proof -
  define gs where "gs = group_keys (map IncidentGroup df)"
  define counts where "counts = band_counts df"
  define rows where "rows = band_percent counts"
  have counts: "counts = concat (map (\<lambda>g. map (\<lambda>b. (g, b, band_count df g b)) labels) gs)"
    by (simp add: counts_def band_counts_def gs_def)
  have dist: "distinct gs" by (simp add: gs_def distinct_group_keys)
  have tot: "group_count_sum counts g = sum_list (map (band_count df g) labels)" if "g \<in> set gs" for g
    unfolding counts by (rule group_count_sum_block [OF dist that])
  have keys: "set (map fst rows) = set gs"
    by (auto simp: rows_def band_percent_def counts labels_def image_iff)
  then have gk: "group_keys (map fst rows) = gs"
    using group_keys_cong [of "map fst rows" "map IncidentGroup df"]
    by (simp add: gs_def set_group_keys)
  define f where "f = (\<lambda>(g, b). pd_div (Some (100 * of_nat (band_count df g b)))
                            (Some (of_nat (group_count_sum counts g))))"
  have ent: "\<forall>(k, v) \<in> set (map (\<lambda>(g', b', p). ((g', b'), p)) rows). v = f k"
    by (auto simp: rows_def band_percent_def f_def counts)
  have cell: "pivot_cell rows g b = f (g, b)" if "g \<in> set gs" "b \<in> set labels" for g b
  proof -
    have "(g, b) \<in> fst ` set (map (\<lambda>(g', b', p). ((g', b'), p)) rows)"
      using that by (force simp: rows_def band_percent_def counts image_iff)
    from map_of_function [OF ent this] show ?thesis
      by (simp add: pivot_cell_def)
  qed
  have "band_pivot df = map (\<lambda>g. (g, map (\<lambda>b. fillna0 (pivot_cell rows g b)) labels)) gs"
    by (simp add: band_pivot_def Let_def rows_def [symmetric] counts_def [symmetric] gk)
  also have "\<dots> = map (\<lambda>g. (g, map (\<lambda>b. fillna0 (f (g, b))) labels)) gs"
    by (simp add: cell)
  also have "\<dots> = map (\<lambda>g. (g, map (\<lambda>b. fillna0 (pd_div (Some (100 * of_nat (band_count df g b)))
                                          (Some (of_nat (sum_list (map (band_count df g) labels))))))
                      labels)) gs"
    by (auto simp: f_def tot)
  finally show ?thesis by (simp add: gs_def)
qed

lemma sum_list_percent:
  fixes c :: "'a \<Rightarrow> nat"
  assumes "sum_list (map c ls) \<noteq> 0"
  shows "sum_list (map (\<lambda>b. 100 * of_nat (c b) / of_nat (sum_list (map c ls))) ls) = (100 :: rat)"
proof -
  have "sum_list (map (\<lambda>b. 100 * of_nat (c b) / t) ms) = 100 * of_nat (sum_list (map c ms)) / t"
    for t :: rat and ms
    by (induction ms) (simp_all add: add_divide_distrib distrib_left)
  then show ?thesis using assms by simp
qed

text \<open>
  C5 (as the script has it). For every table and every incident type that has a record
  with a response band, the row of that incident type in the band table holds, for each
  band, the records of the type in the band as a percentage of the records of the type
  that have a band, and these percentages add up to 100. The percentages are taken within
  the incident type, not within the band.
\<close>

theorem band_percentages_sum_to_100:
  assumes "r \<in> set df" and "ResponseBand r \<noteq> None"
  shows "(\<exists>ps. (IncidentGroup r, ps) \<in> set (band_pivot df))
         \<and> (\<forall>ps. (IncidentGroup r, ps) \<in> set (band_pivot df) \<longrightarrow>
               ps = map (\<lambda>b. 100 * of_nat (band_count df (IncidentGroup r) b)
                            / of_nat (sum_list (map (band_count df (IncidentGroup r)) labels)))
                        labels
               \<and> sum_list ps = 100)"
proof -
  define g where "g = IncidentGroup r"
  from assms(2) obtain b where b: "ResponseBand r = Some b" by auto
  then have bl: "b \<in> set labels" by (rule ResponseBand_in_labels)
  have "r \<in> set (filter (\<lambda>r. IncidentGroup r = g \<and> ResponseBand r = Some b) df)"
    using assms(1) b by (simp add: g_def)
  then have "0 < band_count df g b"
    unfolding band_count_def by (metis length_pos_if_in_set)
  moreover have "band_count df g b \<le> sum_list (map (band_count df g) labels)"
    using bl by (simp add: member_le_sum_list)
  ultimately have pos: "sum_list (map (band_count df g) labels) \<noteq> 0" by linarith
  have gmem: "g \<in> set (group_keys (map IncidentGroup df))"
    using assms(1) by (simp add: set_group_keys g_def)
  have row: "pd_div (Some (100 * of_nat (band_count df g b')))
                    (Some (of_nat (sum_list (map (band_count df g) labels))))
             = Some (100 * of_nat (band_count df g b')
                     / of_nat (sum_list (map (band_count df g) labels)))" for b'
    using pos by simp
  have ex: "\<exists>ps. (g, ps) \<in> set (band_pivot df)"
    using gmem by (force simp: band_pivot_rows)
  have all: "ps = map (\<lambda>b. 100 * of_nat (band_count df g b)
                            / of_nat (sum_list (map (band_count df g) labels))) labels
             \<and> sum_list ps = 100" if "(g, ps) \<in> set (band_pivot df)" for ps
  proof -
    from that have "ps = map (\<lambda>b. 100 * of_nat (band_count df g b)
                            / of_nat (sum_list (map (band_count df g) labels))) labels"
      by (auto simp: band_pivot_rows row fillna0_def)
    then show ?thesis using sum_list_percent [OF pos] by simp
  qed
  from ex all show ?thesis unfolding g_def by blast
qed


theorem band_percentages_sum_to_100_witness:
  "example_incident ''A'' ''Fire'' (Some 300) None
     \<in> set [example_incident ''A'' ''Fire'' (Some 300) None]
   \<and> ResponseBand (example_incident ''A'' ''Fire'' (Some 300) None) \<noteq> None
   \<and> band_pivot [example_incident ''A'' ''Fire'' (Some 300) None]
       = [(''Fire'', [100, 0, 0, 0])]
   \<and> sum_list [100, 0, 0, 0 :: rat] = 100"
proof -
  let ?r = "example_incident ''A'' ''Fire'' (Some 300) None"
  have mem: "?r \<in> set [?r]" by simp
  have band: "ResponseBand ?r \<noteq> None"
    by (simp add: ResponseBand_def ResponseMinutes_def div_scalar_def pd_cut_def
          searchsorted_left_def bins_def example_incident_def)
  have grp: "IncidentGroup ?r = ''Fire''" by (simp add: example_incident_def)
  have piv: "band_pivot [?r] = [(''Fire'', [100, 0, 0, 0])]"
    by (simp add: band_pivot_def band_percent_def band_counts_def band_count_def
          group_keys_def labels_def ResponseBand_def ResponseMinutes_def div_scalar_def
          pd_cut_def searchsorted_left_def bins_def group_count_sum_def pivot_cell_def
          fillna0_def example_incident_def)
  have "\<forall>ps. (IncidentGroup ?r, ps) \<in> set (band_pivot [?r]) \<longrightarrow>
               ps = map (\<lambda>b. 100 * of_nat (band_count [?r] (IncidentGroup ?r) b)
                            / of_nat (sum_list (map (band_count [?r] (IncidentGroup ?r)) labels)))
                        labels
               \<and> sum_list ps = 100"
    using band_percentages_sum_to_100 [OF mem band] by (rule conjunct2)
  moreover have "(IncidentGroup ?r, [100, 0, 0, 0]) \<in> set (band_pivot [?r])"
    unfolding piv grp by simp
  ultimately have "sum_list [100, 0, 0, 0 :: rat] = 100" by blast
  with mem band piv show ?thesis by (simp only: simp_thms)
qed

text \<open>
  A table whose only fire has no attendance time: the fire has no band, every count of
  the incident type is zero, 0/0 is NaN and is filled with 0, and the row adds up to 0.
\<close>

theorem band_percentages_of_unbanded_group:
  "band_pivot [example_incident ''A'' ''Fire'' None None] = [(''Fire'', [0, 0, 0, 0])]
   \<and> sum_list [0, 0, 0, 0 :: rat] \<noteq> 100"
  by (simp add: band_pivot_def band_percent_def band_counts_def band_count_def group_keys_def
      labels_def ResponseBand_def ResponseMinutes_def div_scalar_def pd_cut_def
      group_count_sum_def pivot_cell_def fillna0_def example_incident_def)

section \<open>The Pareto table of extreme delays\<close>























section \<open>A run without extreme delays\<close>

lemma loc_total:
  assumes "\<forall>k \<in> set ks. \<exists>row \<in> set rows. dec_IncidentGroup row = k"
  shows "\<exists>out. loc rows ks = Inr out"
  using assms
proof (induction ks)
  case Nil
  then show ?case by simp
next
  case (Cons k ks)
  then obtain out where out: "loc rows ks = Inr out" by auto
  from Cons.prems have "find (\<lambda>row. dec_IncidentGroup row = k) rows \<noteq> None"
    by (auto simp: find_None_iff)
  then obtain row where "find (\<lambda>row. dec_IncidentGroup row = k) rows = Some row" by auto
  with out show ?case by simp
qed

lemma loc_missing:
  assumes "k \<in> set ks" and "\<forall>row \<in> set rows. dec_IncidentGroup row \<noteq> k"
  shows "loc rows ks = Inl KeyError"
  using assms
proof (induction ks)
  case Nil
  then show ?case by simp
next
  case (Cons a ks)
  show ?case
  proof (cases "a = k")
    case True
    with Cons.prems have "find (\<lambda>row. dec_IncidentGroup row = a) rows = None"
      by (simp add: find_None_iff)
    then show ?thesis by simp
  next
    case False
    with Cons have "loc rows ks = Inl KeyError" by simp
    then show ?thesis by (simp split: option.splits)
  qed
qed

lemma dec_IncidentGroup_decomposition_group [simp]:
  "dec_IncidentGroup (decomposition_group df g) = g"
  by (simp add: decomposition_group_def Let_def)

lemma decomposition_groups:
  "dec_IncidentGroup ` set (decomposition df) = IncidentGroup ` set df"
  by (simp add: decomposition_def set_group_keys image_image)

lemma decomposition_ordered_total:
  assumes "\<forall>g \<in> set order. \<exists>r \<in> set df. IncidentGroup r = g"
  shows "\<exists>dec. decomposition_ordered df = Inr dec"
  unfolding decomposition_ordered_def
proof (rule loc_total, rule ballI)
  fix k assume "k \<in> set order"
  with assms have "k \<in> IncidentGroup ` set df" by auto
  then have "k \<in> dec_IncidentGroup ` set (decomposition df)"
    by (simp only: decomposition_groups)
  then show "\<exists>row \<in> set (decomposition df). dec_IncidentGroup row = k" by auto
qed

lemma decomposition_ordered_KeyError:
  assumes "g \<in> set order" and "\<forall>r \<in> set df. IncidentGroup r \<noteq> g"
  shows "decomposition_ordered df = Inl KeyError"
  unfolding decomposition_ordered_def
proof (rule loc_missing [OF assms(1)], rule ballI)
  fix row assume "row \<in> set (decomposition df)"
  then have "dec_IncidentGroup row \<in> IncidentGroup ` set df"
    using decomposition_groups [of df] by blast
  with assms(2) show "dec_IncidentGroup row \<noteq> g" by auto
qed

lemma delay_counts_extreme_Nil:
  "extreme_df df = [] \<Longrightarrow> delay_counts_extreme df = []"
  by (simp add: delay_counts_extreme_def sort_values_desc_def group_keys_def)

lemma Tabs_not_before_decomposition:
  "Rendered (Tabs k) \<notin> set (sections_before_decomposition df)"
  by (simp add: sections_before_decomposition_def)

text \<open>
  The two other ways a run over a non-empty selection goes: with no record of one of the
  three incident types it ends in \<^verbatim>\<open>KeyError\<close> at the decomposition table, and with a
  non-empty Pareto table it draws the Pareto chart and the tabs and reaches its last line.
\<close>

lemma run_dashboard_KeyError:
  assumes "filtered_df df y m \<noteq> []"
    and "g \<in> set order" and "\<forall>r \<in> set (filtered_df df y m). IncidentGroup r \<noteq> g"
  shows "run_dashboard df y m
           = (sections_before_decomposition (filtered_df df y m), Raised KeyError)"
  using assms(1) decomposition_ordered_KeyError [OF assms(2,3)]
  by (simp add: run_dashboard_def Let_def)

lemma run_dashboard_completed:
  assumes "filtered_df df y m \<noteq> []"
    and "decomposition_ordered (filtered_df df y m) = Inr dec"
    and "delay_counts_extreme (filtered_df df y m) \<noteq> []"
  shows "run_dashboard df y m =
           (sections_before_decomposition (filtered_df df y m)
            @ [Rendered (Turnout_Travel_Decomposition dec),
               Rendered (Pareto_Analysis
                 (pareto_df (with_percent (delay_counts_extreme (filtered_df df y m))))
                 (top3_share (with_percent (delay_counts_extreme (filtered_df df y m))))),
               Rendered (Tabs (kpi_calculations (filtered_df df y m)))],
            Completed)"
  using assms by (simp add: run_dashboard_def Let_def)

text \<open>
  C2 (as the script has it). When the filtered table is not empty, has a record of each
  of the three incident types, and has no record over ten minutes, the script renders
  every section down to the turnout and travel decomposition, shows a warning of its own
  for the Pareto section, different from the warning for an empty selection, and halts:
  the Pareto chart is not drawn, and neither are the tabs that follow it.
\<close>

theorem no_extreme_delays_stops_script:
  assumes "filtered_df df y m \<noteq> []"
    and "\<forall>g \<in> set order. \<exists>r \<in> set (filtered_df df y m). IncidentGroup r = g"
    and "extreme_df (filtered_df df y m) = []"
  shows "(\<exists>dec. decomposition_ordered (filtered_df df y m) = Inr dec
            \<and> run_dashboard df y m =
                (sections_before_decomposition (filtered_df df y m)
                 @ [Rendered (Turnout_Travel_Decomposition dec),
                    Warning no_extreme_delays_warning], Stopped))
         \<and> no_extreme_delays_warning \<noteq> no_data_warning
         \<and> (\<forall>k. Rendered (Tabs k) \<notin> set (fst (run_dashboard df y m)))"
proof -
  from decomposition_ordered_total [OF assms(2)]
  obtain dec where dec: "decomposition_ordered (filtered_df df y m) = Inr dec" ..
  have none: "delay_counts_extreme (filtered_df df y m) = []"
    using assms(3) by (rule delay_counts_extreme_Nil)
  have run: "run_dashboard df y m =
                (sections_before_decomposition (filtered_df df y m)
                 @ [Rendered (Turnout_Travel_Decomposition dec),
                    Warning no_extreme_delays_warning], Stopped)"
    using assms(1) by (simp add: run_dashboard_def Let_def dec none)
  have diff: "no_extreme_delays_warning \<noteq> no_data_warning"
    by (simp add: no_extreme_delays_warning_def no_data_warning_def)
  have "Rendered (Tabs k) \<notin> set (fst (run_dashboard df y m))" for k
    by (simp add: run Tabs_not_before_decomposition)
  with dec run diff show ?thesis by blast
qed

lemma no_extreme_example_filtered: "filtered_df no_extreme_example All_Years ''All'' = no_extreme_example"
  by (simp add: filtered_df_def)

lemma no_extreme_example_groups: "\<forall>g \<in> set order. \<exists>r \<in> set no_extreme_example. IncidentGroup r = g"
  by (simp add: order_def no_extreme_example_def example_incident_def)

lemma no_extreme_example_extreme: "extreme_df no_extreme_example = []"
  by (simp add: extreme_df_def ResponseMinutes_def div_scalar_def no_extreme_example_def
        example_incident_def)

theorem no_extreme_delays_stops_script_witness:
  "filtered_df no_extreme_example All_Years ''All'' \<noteq> []
   \<and> extreme_df (filtered_df no_extreme_example All_Years ''All'') = []
   \<and> snd (run_dashboard no_extreme_example All_Years ''All'') = Stopped
   \<and> last (fst (run_dashboard no_extreme_example All_Years ''All''))
       = Warning no_extreme_delays_warning
   \<and> Rendered (Tabs (kpi_calculations no_extreme_example))
       \<notin> set (fst (run_dashboard no_extreme_example All_Years ''All''))"
proof -
  have a: "filtered_df no_extreme_example All_Years ''All'' \<noteq> []"
    unfolding no_extreme_example_filtered by (simp add: no_extreme_example_def)
  have b: "\<forall>g \<in> set order.
      \<exists>r \<in> set (filtered_df no_extreme_example All_Years ''All''). IncidentGroup r = g"
    unfolding no_extreme_example_filtered by (rule no_extreme_example_groups)
  have c: "extreme_df (filtered_df no_extreme_example All_Years ''All'') = []"
    unfolding no_extreme_example_filtered by (rule no_extreme_example_extreme)
  from no_extreme_delays_stops_script [OF a b c]
  obtain dec where run: "run_dashboard no_extreme_example All_Years ''All'' =
      (sections_before_decomposition (filtered_df no_extreme_example All_Years ''All'')
       @ [Rendered (Turnout_Travel_Decomposition dec), Warning no_extreme_delays_warning],
       Stopped)"
    and tabs: "\<forall>k. Rendered (Tabs k)
        \<notin> set (fst (run_dashboard no_extreme_example All_Years ''All''))"
    by blast
  from run have "snd (run_dashboard no_extreme_example All_Years ''All'') = Stopped"
    and "last (fst (run_dashboard no_extreme_example All_Years ''All''))
       = Warning no_extreme_delays_warning"
    by simp_all
  with a c tabs show ?thesis by blast
qed

text \<open>
  The run over one record of each incident type, none over ten minutes, ends at the
  warning: the tabs, which come after the Pareto section in the script, are not rendered.
\<close>

theorem tabs_not_rendered_without_extreme_delays:
  "filtered_df no_extreme_example All_Years ''All'' \<noteq> []
   \<and> extreme_df (filtered_df no_extreme_example All_Years ''All'') = []
   \<and> run_dashboard no_extreme_example All_Years ''All'' =
       (sections_before_decomposition no_extreme_example
        @ [Rendered (Turnout_Travel_Decomposition
             [decomposition_group no_extreme_example ''Fire'',
              decomposition_group no_extreme_example ''Special Service'',
              decomposition_group no_extreme_example ''False Alarm'']),
           Warning no_extreme_delays_warning],
        Stopped)
   \<and> Rendered (Tabs (kpi_calculations no_extreme_example))
       \<notin> set (fst (run_dashboard no_extreme_example All_Years ''All''))"
proof -
  have dec: "decomposition_ordered no_extreme_example =
      Inr [decomposition_group no_extreme_example ''Fire'',
           decomposition_group no_extreme_example ''Special Service'',
           decomposition_group no_extreme_example ''False Alarm'']"
  proof -
    have "group_keys (map IncidentGroup no_extreme_example)
        = [''False Alarm'', ''Fire'', ''Special Service'']"
      by (simp add: group_keys_def no_extreme_example_def example_incident_def)
    then show ?thesis
      by (simp add: decomposition_ordered_def decomposition_def order_def)
  qed
  have ne: "no_extreme_example \<noteq> []" by (simp add: no_extreme_example_def)
  have run: "run_dashboard no_extreme_example All_Years ''All'' =
       (sections_before_decomposition no_extreme_example
        @ [Rendered (Turnout_Travel_Decomposition
             [decomposition_group no_extreme_example ''Fire'',
              decomposition_group no_extreme_example ''Special Service'',
              decomposition_group no_extreme_example ''False Alarm'']),
           Warning no_extreme_delays_warning],
        Stopped)"
    using ne
    by (simp add: run_dashboard_def Let_def no_extreme_example_filtered dec
          delay_counts_extreme_Nil [OF no_extreme_example_extreme])
  show ?thesis
    using ne by (simp add: run no_extreme_example_filtered no_extreme_example_extreme Tabs_not_before_decomposition)
qed

end
